theory Spec2Isabelle
  imports Main "HOL-Library.Word" "HOL-Library.AList"
begin

section \<open>Connection configuration and the pool key (internal/flight)\<close>

text \<open>
  Go strings are byte sequences; they are modelled as \<open>string\<close> (a list of 8-bit
  characters), so a NUL byte inside a field is the character \<open>CHR 0x00\<close>.
\<close>

record Config =
  URI :: string
  Username :: string
  Password :: string
  SkipVerify :: bool

text \<open>\<open>fmt.Sprintf("%v", b)\<close> for a Go bool.\<close>

definition fmt_bool :: "bool \<Rightarrow> string" where
  "fmt_bool b = (if b then ''true'' else ''false'')"

text \<open>
  The bytes that \<open>configKey\<close> writes into the SHA-256 state, in order:
  URI, 0x00, username, 0x00, password, 0x00, skip-verify.
\<close>

definition configKeyInput :: "Config \<Rightarrow> string" where
  "configKeyInput cfg =
     URI cfg @ [CHR 0x00] @ Username cfg @ [CHR 0x00] @ Password cfg @ [CHR 0x00]
       @ fmt_bool (SkipVerify cfg)"

text \<open>
  \<open>configKey\<close> is the hex encoding of the SHA-256 digest of those bytes. The digest
  (crypto/sha256 followed by encoding/hex) is a library function and is taken as the
  parameter \<open>sha256_hex\<close>.
\<close>

definition configKey :: "(string \<Rightarrow> string) \<Rightarrow> Config \<Rightarrow> string" where
  "configKey sha256_hex cfg = sha256_hex (configKeyInput cfg)"

section \<open>The Flight client (internal/flight: Client, Connect, IsHealthy, Close)\<close>

text \<open>
  A \<open>Client\<close> holds the ADBC database (session) and connection (transport) interface
  values; a nil interface value is \<open>None\<close>, a live one is \<open>Some\<close> of an opaque handle.
\<close>

type_synonym handle = nat

record Client =
  db :: "handle option"
  conn :: "handle option"

definition IsHealthy :: "Client \<Rightarrow> bool" where
  "IsHealthy c = (conn c \<noteq> None \<and> db c \<noteq> None)"

text \<open>
  Clients are shared by pointer (\<open>*Client\<close>): the pool and the scan that borrowed a
  client hold the same object. The store maps every address to the client object there;
  addresses below \<open>nextAddr\<close> have been allocated. The calls that matter for the locking
  discipline are recorded, in program order, in \<open>trace\<close>.
\<close>

type_synonym addr = nat

datatype event =
    EvLock
  | EvUnlock
  | EvConnect
  | EvConnClose handle
  | EvDbClose handle

record PooledClient =
  client :: addr
  lastUsed :: int
  key :: string
  inUse :: bool

record Pool =
  clients :: "(string \<times> PooledClient) list"
  maxIdle :: int

record ConnectionResult =
  Client_ptr :: addr
  IsPooled :: bool

record World =
  heap :: "addr \<Rightarrow> Client"
  nextAddr :: addr
  globalPool :: Pool
  trace :: "event list"

definition emit :: "event \<Rightarrow> World \<Rightarrow> World" where
  "emit e w = w\<lparr>trace := trace w @ [e]\<rparr>"

text \<open>\<open>NewPool\<close>: an empty map and an idle limit of five minutes (in nanoseconds).\<close>

definition NewPool :: Pool where
  "NewPool = \<lparr>clients = [], maxIdle = 5 * 60 * 1000000000\<rparr>"

definition NewWorld :: World where
  "NewWorld = \<lparr>heap = (\<lambda>_. \<lparr>db = None, conn = None\<rparr>), nextAddr = 0,
                globalPool = NewPool, trace = []\<rparr>"

text \<open>
  What the ADBC driver answers during one \<open>Connect\<close>: the result of
  \<open>NewDatabaseWithOptions\<close> and of \<open>db.Open\<close>, each an error message or a live handle.
\<close>

record DriverOutcome =
  newDatabase :: "string + handle"
  openConn :: "string + handle"

definition Connect :: "DriverOutcome \<Rightarrow> Config \<Rightarrow> World \<Rightarrow> (string + addr) \<times> World" where
  "Connect drv cfg w =
     (let w1 = emit EvConnect w in
      case newDatabase drv of
        Inl e \<Rightarrow> (Inl (''create database: '' @ e), w1)
      | Inr d \<Rightarrow>
          (case openConn drv of
             Inl e \<Rightarrow> (Inl (''open connection: '' @ e), emit (EvDbClose d) w1)
           | Inr c \<Rightarrow>
               (Inr (nextAddr w1),
                w1\<lparr>heap := (heap w1)(nextAddr w1 := \<lparr>db = Some d, conn = Some c\<rparr>),
                   nextAddr := Suc (nextAddr w1)\<rparr>)))"

text \<open>\<open>strings.Join\<close>.\<close>

fun join :: "string \<Rightarrow> string list \<Rightarrow> string" where
  "join sep [] = []"
| "join sep [x] = x"
| "join sep (x # y # ys) = x @ sep @ join sep (y # ys)"

text \<open>
  \<open>Client.Close\<close>: closes the connection, then the database, when the handle is not
  nil, and collects the errors. It assigns to neither field. The errors the driver
  answers are given by \<open>CloseOutcome\<close>.
\<close>

record CloseOutcome =
  connCloseErr :: "string option"
  dbCloseErr :: "string option"

definition errs_of :: "string option \<Rightarrow> string list" where
  "errs_of e = (case e of None \<Rightarrow> [] | Some m \<Rightarrow> [m])"

definition ClientClose :: "CloseOutcome \<Rightarrow> addr \<Rightarrow> World \<Rightarrow> string option \<times> World" where
  "ClientClose co a w =
     (let c = heap w a;
          (errs1, w1) = (case conn c of
                           None \<Rightarrow> ([], w)
                         | Some hc \<Rightarrow> (errs_of (connCloseErr co), emit (EvConnClose hc) w));
          (errs2, w2) = (case db c of
                           None \<Rightarrow> (errs1, w1)
                         | Some hb \<Rightarrow> (errs1 @ errs_of (dbCloseErr co), emit (EvDbClose hb) w1))
      in (if errs2 \<noteq> [] then Some (''close errors: ['' @ join '' '' errs2 @ '']'') else None,
          w2))"

section \<open>The connection pool (internal/flight: Pool.Get, Pool.Release, Pool.Close)\<close>

text \<open>
  The pool's map is an association list with one entry per key; \<open>map_of\<close> is the
  lookup, \<open>AList.update\<close> the store through the entry pointer, \<open>AList.delete\<close> the
  builtin \<open>delete\<close>.
\<close>

definition set_entry :: "string \<Rightarrow> PooledClient \<Rightarrow> World \<Rightarrow> World" where
  "set_entry k pc w =
     w\<lparr>globalPool := (globalPool w)\<lparr>clients := AList.update k pc (clients (globalPool w))\<rparr>\<rparr>"

definition del_entry :: "string \<Rightarrow> World \<Rightarrow> World" where
  "del_entry k w =
     w\<lparr>globalPool := (globalPool w)\<lparr>clients := AList.delete k (clients (globalPool w))\<rparr>\<rparr>"

text \<open>The tail of \<open>Get\<close>: connect, and install the new client as an in-use entry.\<close>

definition Get_new ::
  "DriverOutcome \<Rightarrow> int \<Rightarrow> Config \<Rightarrow> string \<Rightarrow> World \<Rightarrow> (string + ConnectionResult) \<times> World" where
  "Get_new drv t_stamp cfg k w =
     (case Connect drv cfg w of
        (Inl e, w1) \<Rightarrow> (Inl e, w1)
      | (Inr a, w1) \<Rightarrow>
          (Inr \<lparr>Client_ptr = a, IsPooled = True\<rparr>,
           set_entry k \<lparr>client = a, lastUsed = t_stamp, key = k, inUse = True\<rparr> w1))"

text \<open>
  \<open>Pool.Get\<close>. \<open>t_check\<close> is the clock reading of \<open>time.Since\<close>, \<open>t_stamp\<close> the one of
  the \<open>time.Now()\<close> that stamps the entry; \<open>drv\<close> and \<open>co\<close> are the driver's answers to
  the one \<open>Connect\<close> and the one \<open>Close\<close> that a call can make. The mutex is taken on
  entry and released by the deferred unlock on every return. Times and durations are
  integers (nanoseconds); the saturation of \<open>time.Duration\<close> is not modelled.
\<close>

definition Get ::
  "(string \<Rightarrow> string) \<Rightarrow> DriverOutcome \<Rightarrow> CloseOutcome \<Rightarrow> int \<Rightarrow> int \<Rightarrow> Config \<Rightarrow> World
     \<Rightarrow> (string + ConnectionResult) \<times> World" where
  "Get sha256_hex drv co t_check t_stamp cfg w =
     (let k = configKey sha256_hex cfg;
          w0 = emit EvLock w;
          (r, w') =
            (case map_of (clients (globalPool w0)) k of
               Some pc \<Rightarrow>
                 if inUse pc then
                   (case Connect drv cfg w0 of
                      (Inl e, w1) \<Rightarrow> (Inl e, w1)
                    | (Inr a, w1) \<Rightarrow> (Inr \<lparr>Client_ptr = a, IsPooled = False\<rparr>, w1))
                 else if IsHealthy (heap w0 (client pc))
                         \<and> t_check - lastUsed pc < maxIdle (globalPool w0) then
                   (Inr \<lparr>Client_ptr = client pc, IsPooled = True\<rparr>,
                    set_entry k (pc\<lparr>inUse := True, lastUsed := t_stamp\<rparr>) w0)
                 else
                   Get_new drv t_stamp cfg k
                     (del_entry k (snd (ClientClose co (client pc) w0)))
             | None \<Rightarrow> Get_new drv t_stamp cfg k w0)
      in (r, emit EvUnlock w'))"

definition Release :: "(string \<Rightarrow> string) \<Rightarrow> int \<Rightarrow> Config \<Rightarrow> World \<Rightarrow> World" where
  "Release sha256_hex t_stamp cfg w =
     (let k = configKey sha256_hex cfg;
          w0 = emit EvLock w;
          w1 = (case map_of (clients (globalPool w0)) k of
                  Some pc \<Rightarrow> set_entry k (pc\<lparr>lastUsed := t_stamp, inUse := False\<rparr>) w0
                | None \<Rightarrow> w0)
      in emit EvUnlock w1)"

text \<open>
  \<open>Pool.Close\<close>: under the mutex, close every entry's client and delete the entry.
  \<open>cos\<close> gives the driver's answers for the client at each address.
\<close>

fun closeAll :: "(addr \<Rightarrow> CloseOutcome) \<Rightarrow> (string \<times> PooledClient) list \<Rightarrow> World \<Rightarrow> World" where
  "closeAll cos [] w = w"
| "closeAll cos ((k, pc) # rest) w =
     closeAll cos rest (del_entry k (snd (ClientClose (cos (client pc)) (client pc) w)))"

definition PoolClose :: "(addr \<Rightarrow> CloseOutcome) \<Rightarrow> World \<Rightarrow> World" where
  "PoolClose cos w =
     (let w0 = emit EvLock w in emit EvUnlock (closeAll cos (clients (globalPool w0)) w0))"

text \<open>
  The states the process can reach: from the initial one by calls of the pool's
  operations, by a holder of a client closing it, and by a direct \<open>Connect\<close> (as the
  attach path does).
\<close>

inductive reachable :: "(string \<Rightarrow> string) \<Rightarrow> World \<Rightarrow> bool" for sha256_hex where
  reach_init: "reachable sha256_hex NewWorld"
| reach_Get: "reachable sha256_hex w \<Longrightarrow>
     reachable sha256_hex (snd (Get sha256_hex drv co t_check t_stamp cfg w))"
| reach_Release: "reachable sha256_hex w \<Longrightarrow>
     reachable sha256_hex (Release sha256_hex t_stamp cfg w)"
| reach_PoolClose: "reachable sha256_hex w \<Longrightarrow> reachable sha256_hex (PoolClose cos w)"
| reach_ClientClose: "reachable sha256_hex w \<Longrightarrow>
     reachable sha256_hex (snd (ClientClose co a w))"
| reach_Connect: "reachable sha256_hex w \<Longrightarrow> reachable sha256_hex (snd (Connect drv cfg w))"

text \<open>A mutex-held scan of a trace: is some driver call made between a lock and its unlock?\<close>

fun is_rpc :: "event \<Rightarrow> bool" where
  "is_rpc EvLock = False"
| "is_rpc EvUnlock = False"
| "is_rpc EvConnect = True"
| "is_rpc (EvConnClose h) = True"
| "is_rpc (EvDbClose h) = True"

fun rpc_while_locked :: "bool \<Rightarrow> event list \<Rightarrow> bool" where
  "rpc_while_locked held [] = False"
| "rpc_while_locked held (EvLock # es) = rpc_while_locked True es"
| "rpc_while_locked held (EvUnlock # es) = rpc_while_locked False es"
| "rpc_while_locked held (e # es) = (held \<or> rpc_while_locked held es)"

section \<open>Auxiliary notions for the pool's properties\<close>

text \<open>The entry stored under a key.\<close>

definition lookup :: "World \<Rightarrow> string \<Rightarrow> PooledClient option" where
  "lookup w k = map_of (clients (globalPool w)) k"

text \<open>
  What every reachable state satisfies: pooled clients are allocated, no client is in the
  pool under two keys, and every allocated client has both handles.
\<close>

definition pool_inv :: "World \<Rightarrow> bool" where
  "pool_inv w =
     ((\<forall>k pc. lookup w k = Some pc \<longrightarrow> client pc < nextAddr w)
      \<and> (\<forall>k k' pc pc'. lookup w k = Some pc \<and> lookup w k' = Some pc' \<and> client pc = client pc'
            \<longrightarrow> k = k')
      \<and> (\<forall>a. a < nextAddr w \<longrightarrow> IsHealthy (heap w a)))"

text \<open>The condition under which \<open>Get\<close> hands out the pooled entry itself.\<close>

definition reuses :: "(string \<Rightarrow> string) \<Rightarrow> int \<Rightarrow> Config \<Rightarrow> World \<Rightarrow> bool" where
  "reuses h t1 cfg w =
     (case lookup w (configKey h cfg) of
        None \<Rightarrow> False
      | Some pc \<Rightarrow> \<not> inUse pc \<and> IsHealthy (heap w (client pc))
                   \<and> t1 - lastUsed pc < maxIdle (globalPool w))"

text \<open>
  A concrete run: one successful \<open>Get\<close> on the fresh pool. In concrete runs the digest
  function is replaced by one that keeps the bytes as they are, which is injective.
\<close>

definition plain_digest :: "string \<Rightarrow> string" where
  "plain_digest s = s"

definition example_cfg :: Config where
  "example_cfg = \<lparr>URI = ''grpc://localhost:31337'', Username = ''user'', Password = ''pass'',
                   SkipVerify = False\<rparr>"

definition drv_ok :: DriverOutcome where
  "drv_ok = \<lparr>newDatabase = Inr 1, openConn = Inr 2\<rparr>"

definition co_ok :: CloseOutcome where
  "co_ok = \<lparr>connCloseErr = None, dbCloseErr = None\<rparr>"

definition world1 :: World where
  "world1 = snd (Get plain_digest drv_ok co_ok 0 0 example_cfg NewWorld)"

text \<open>
  The driver calls of one \<open>Connect\<close> and of one \<open>Client.Close\<close>, and from them the
  driver calls that \<open>Get\<close> and \<open>Pool.Close\<close> are to make between taking and releasing
  the mutex: \<open>Get\<close> none when it hands out the idle entry, those of a \<open>Connect\<close> when
  the entry is missing or in use, and the close of the entry's client followed by
  those of a \<open>Connect\<close> when the entry is unhealthy or stale; \<open>Pool.Close\<close> the close
  of every entry's client, in the order of the entries.
\<close>

definition connect_calls :: "DriverOutcome \<Rightarrow> event list" where
  "connect_calls drv =
     EvConnect #
       (case newDatabase drv of
          Inl e \<Rightarrow> []
        | Inr d \<Rightarrow> (case openConn drv of Inl e \<Rightarrow> [EvDbClose d] | Inr c \<Rightarrow> []))"

definition close_calls :: "Client \<Rightarrow> event list" where
  "close_calls c =
     (case conn c of None \<Rightarrow> [] | Some hc \<Rightarrow> [EvConnClose hc])
       @ (case db c of None \<Rightarrow> [] | Some hb \<Rightarrow> [EvDbClose hb])"

definition Get_calls ::
  "(string \<Rightarrow> string) \<Rightarrow> DriverOutcome \<Rightarrow> int \<Rightarrow> Config \<Rightarrow> World \<Rightarrow> event list" where
  "Get_calls h drv t1 cfg w =
     (case lookup w (configKey h cfg) of
        None \<Rightarrow> connect_calls drv
      | Some pc \<Rightarrow>
          if inUse pc then connect_calls drv
          else if reuses h t1 cfg w then []
          else close_calls (heap w (client pc)) @ connect_calls drv)"

definition PoolClose_calls :: "World \<Rightarrow> event list" where
  "PoolClose_calls w =
     concat (map (\<lambda>entry. close_calls (heap w (client (snd entry)))) (clients (globalPool w)))"

text \<open>
  Further concrete states: the entry of \<open>world1\<close> released at time 1, and the same pool
  asked again after more than the idle limit.
\<close>

definition world2 :: World where
  "world2 = Release plain_digest 1 example_cfg world1"

definition world3 :: World where
  "world3 = snd (Get plain_digest drv_ok co_ok 400000000000 400000000000 example_cfg world2)"

definition cos_ok :: "addr \<Rightarrow> CloseOutcome" where
  "cos_ok a = co_ok"

section \<open>The query builder (query_builder.go)\<close>

text \<open>
  \<open>strings.ReplaceAll(s, `"`, `""`)\<close>: every double quote is doubled.
\<close>

fun escapeQuotes :: "string \<Rightarrow> string" where
  "escapeQuotes [] = []"
| "escapeQuotes (c # cs) = (if c = CHR 0x22 then [c, c] else [c]) @ escapeQuotes cs"

text \<open>
  \<open>strings.ReplaceAll(s, `""`, `"`)\<close>: non-overlapping pairs of double quotes, found
  from the left, become one.
\<close>

fun unescapeQuotes :: "string \<Rightarrow> string" where
  "unescapeQuotes (a # b # cs) =
     (if a = CHR 0x22 \<and> b = CHR 0x22 then CHR 0x22 # unescapeQuotes cs
      else a # unescapeQuotes (b # cs))"
| "unescapeQuotes cs = cs"

definition buildProjectedQuery :: "string \<Rightarrow> string list \<Rightarrow> string" where
  "buildProjectedQuery tableName columns =
     (let escapedTable = escapeQuotes tableName;
          columnList =
            (if length columns = 0 then ''*''
             else join '', '' (map (\<lambda>col. [CHR 0x22] @ escapeQuotes col @ [CHR 0x22]) columns))
      in ''SELECT '' @ columnList @ '' FROM '' @ [CHR 0x22] @ escapedTable @ [CHR 0x22])"

definition buildSchemaQuery :: "string \<Rightarrow> string" where
  "buildSchemaQuery tableName =
     ''SELECT * FROM '' @ [CHR 0x22] @ escapeQuotes tableName @ [CHR 0x22] @ '' WHERE 1=0''"

subsection \<open>The two regular expressions of \<open>extractTableName\<close>\<close>

text \<open>
  \<open>regexp.FindStringSubmatch\<close> returns the leftmost match and, at that position, the
  match a backtracking matcher finds first (greedy repetitions take as much as they can
  and give back only when the rest fails). The two patterns are matched by the functions
  below, element by element.

  \<open>\s\<close> is the class of tab, newline, form feed, carriage return and space.
\<close>

definition is_space :: "char \<Rightarrow> bool" where
  "is_space c = (c = CHR 0x09 \<or> c = CHR 0x0A \<or> c = CHR 0x0C \<or> c = CHR 0x0D \<or> c = CHR 0x20)"

text \<open>
  One upper-case letter of the pattern under \<open>(?i)\<close>: the letter itself or its lower
  case; the letter S also matches U+017F (long s, the bytes C5 BF), which case folding
  identifies with it.
\<close>

definition fold_letter :: "char \<Rightarrow> string \<Rightarrow> string option" where
  "fold_letter p s =
     (case s of
        [] \<Rightarrow> None
      | c # cs \<Rightarrow>
          if c = p \<or> (of_char c :: nat) = of_char p + 32 then Some cs
          else if p = CHR ''S'' \<and> c = CHR 0xC5 then
            (case cs of [] \<Rightarrow> None | d # ds \<Rightarrow> if d = CHR 0xBF then Some ds else None)
          else None)"

fun lit_ci :: "string \<Rightarrow> string \<Rightarrow> string option" where
  "lit_ci [] s = Some s"
| "lit_ci (p # ps) s = (case fold_letter p s of None \<Rightarrow> None | Some rest \<Rightarrow> lit_ci ps rest)"

text \<open>\<open>\s+\<close> before an element that is not white space: all the white space, at least one.\<close>

definition spaces1 :: "string \<Rightarrow> string option" where
  "spaces1 s =
     (case s of
        [] \<Rightarrow> None
      | c # cs \<Rightarrow> if is_space c then Some (dropWhile is_space cs) else None)"

text \<open>The common prefix \<open>(?i)SELECT\s+\*\s+FROM\s+\<close>; the result is the input left.\<close>

definition match_select_from :: "string \<Rightarrow> string option" where
  "match_select_from s =
     (case lit_ci ''SELECT'' s of
        None \<Rightarrow> None
      | Some s1 \<Rightarrow>
          (case spaces1 s1 of
             None \<Rightarrow> None
           | Some s2 \<Rightarrow>
               (case s2 of
                  [] \<Rightarrow> None
                | c # s3 \<Rightarrow>
                    if c \<noteq> CHR ''*'' then None
                    else
                      (case spaces1 s3 of
                         None \<Rightarrow> None
                       | Some s4 \<Rightarrow>
                           (case lit_ci ''FROM'' s4 of
                              None \<Rightarrow> None
                            | Some s5 \<Rightarrow> spaces1 s5)))))"

text \<open>
  The group \<open>([^"]*(?:""[^"]*)*)\<close> followed by the closing quote, on the input after the
  opening quote. \<open>acc\<close> is the text of the group so far. At a doubled quote the
  repetition is tried first; when the rest then fails (no closing quote is left), the
  group ends before the pair and the first quote of the pair closes it.
\<close>

fun scan_quoted :: "string \<Rightarrow> string \<Rightarrow> string option" where
  "scan_quoted acc [] = None"
| "scan_quoted acc (c # cs) =
     (if c \<noteq> CHR 0x22 then scan_quoted (acc @ [c]) cs
      else
        (case cs of
           [] \<Rightarrow> Some acc
         | d # ds \<Rightarrow>
             if d = CHR 0x22 then
               (case scan_quoted (acc @ [c, d]) ds of Some g \<Rightarrow> Some g | None \<Rightarrow> Some acc)
             else Some acc))"

text \<open>The first pattern at the start of \<open>s\<close>: the captured group.\<close>

definition match_quoted_at :: "string \<Rightarrow> string option" where
  "match_quoted_at s =
     (case match_select_from s of
        None \<Rightarrow> None
      | Some r \<Rightarrow>
          (case r of [] \<Rightarrow> None | q # rest \<Rightarrow> if q = CHR 0x22 then scan_quoted [] rest else None))"

text \<open>The second pattern, \<open>(?i)SELECT\s+\*\s+FROM\s+(\S+)\<close>, at the start of \<open>s\<close>.\<close>

definition match_bare_at :: "string \<Rightarrow> string option" where
  "match_bare_at s =
     (case match_select_from s of
        None \<Rightarrow> None
      | Some r \<Rightarrow>
          (let g = takeWhile (\<lambda>c. \<not> is_space c) r in if g = [] then None else Some g))"

text \<open>The leftmost match: the first start position, from the left, at which the pattern matches.\<close>

fun find_leftmost :: "(string \<Rightarrow> string option) \<Rightarrow> string \<Rightarrow> string option" where
  "find_leftmost m [] = m []"
| "find_leftmost m (c # cs) =
     (case m (c # cs) of Some g \<Rightarrow> Some g | None \<Rightarrow> find_leftmost m cs)"

definition extractTableName :: "string \<Rightarrow> string" where
  "extractTableName query =
     (case find_leftmost match_quoted_at query of
        Some g \<Rightarrow> unescapeQuotes g
      | None \<Rightarrow>
          (case find_leftmost match_bare_at query of
             Some g \<Rightarrow> g
           | None \<Rightarrow> []))"

section \<open>Statements on the remote service (Client.Query, Client.Execute)\<close>

text \<open>
  Arrow record batches as the decoding code reads them: a batch is its list of columns;
  a string column is the list of its values (\<open>None\<close> for a null), the integer columns are
  their values, any other column type is \<open>OtherCol\<close>. A record reader is the list of its
  batches and the error (if any) that \<open>Err()\<close> reports when \<open>Next()\<close> has returned false.
\<close>

datatype arrow_col =
    StringCol "string option list"
  | Int32Col "32 word list"
  | Int64Col "64 word list"
  | OtherCol

type_synonym record_batch = "arrow_col list"

record 'b RecordReader =
  batches :: "'b list"
  readerErr :: "string option"

text \<open>
  The hierarchical result of the structured metadata call \<open>GetObjects\<close>, as the decoding
  loops walk it: each row of a batch (a catalog) has a list of schemas or a null, each
  schema a name and a list of tables or a null, each table a list of columns or a null.
  A column's \<open>column_name\<close> is a value or a null; each of the optional fields is absent
  from the struct (or of another type), null, or a value. The three flags say whether
  the batch passes the type assertions of the schema, table and column decoder; a batch
  that fails them is skipped by that decoder.
\<close>

datatype 'a field = FieldAbsent | FieldNull | FieldValue 'a

record AdbcColumn =
  column_name :: "string option"
  ordinal_position :: "32 word field"
  xdbc_type_name :: "string field"
  xdbc_nullable :: "16 word field"

record AdbcTable =
  table_name :: "string option"
  table_columns :: "AdbcColumn list option"

record AdbcSchema =
  db_schema_name :: "string option"
  db_schema_tables :: "AdbcTable list option"

record ObjectsBatch =
  schemas_shape :: bool
  tables_shape :: bool
  columns_shape :: bool
  catalog_db_schemas :: "AdbcSchema list option list"

datatype object_depth = ObjectDepthDBSchemas | ObjectDepthTables | ObjectDepthColumns

text \<open>
  What the ADBC connection answers: an error (or none) for \<open>NewStatement\<close> and
  \<open>SetSqlQuery\<close>, and for the execution either an error or the result (a reader for
  \<open>ExecuteQuery\<close>, the affected-row count, an \<open>int64\<close>, for \<open>ExecuteUpdate\<close>), and for
  \<open>GetObjects\<close> at a depth, with its \<open>catalog\<close>, \<open>dbSchema\<close>, \<open>tableName\<close> and
  \<open>columnName\<close> arguments in this order (\<open>None\<close> for nil; the \<open>tableType\<close> argument is
  always nil), an error or a reader.
  Errors are their messages.
\<close>

record Remote =
  newStatement :: "string option"
  setSqlQuery :: "string \<Rightarrow> string option"
  executeQuery :: "string \<Rightarrow> string + record_batch RecordReader"
  executeUpdate :: "string \<Rightarrow> string + 64 word"
  getObjects :: "object_depth \<Rightarrow> string option \<Rightarrow> string option \<Rightarrow> string option
                   \<Rightarrow> string option \<Rightarrow> string + ObjectsBatch RecordReader"

definition ClientQuery :: "Remote \<Rightarrow> string \<Rightarrow> string + record_batch RecordReader" where
  "ClientQuery rm sql =
     (case newStatement rm of
        Some e \<Rightarrow> Inl (''create statement: '' @ e)
      | None \<Rightarrow>
          (case setSqlQuery rm sql of
             Some e \<Rightarrow> Inl (''set query: '' @ e)
           | None \<Rightarrow>
               (case executeQuery rm sql of
                  Inl e \<Rightarrow> Inl (''execute query: '' @ e)
                | Inr reader \<Rightarrow> Inr reader)))"

definition ClientExecute :: "Remote \<Rightarrow> string \<Rightarrow> string + 64 word" where
  "ClientExecute rm sql =
     (case newStatement rm of
        Some e \<Rightarrow> Inl (''create statement: '' @ e)
      | None \<Rightarrow>
          (case setSqlQuery rm sql of
             Some e \<Rightarrow> Inl (''set query: '' @ e)
           | None \<Rightarrow>
               (case executeUpdate rm sql of
                  Inl e \<Rightarrow> Inl (''execute update: '' @ e)
                | Inr affected \<Rightarrow> Inr affected)))"

section \<open>Scan initialisation with projection (duckarrow_go_scan_init)\<close>













section \<open>Metadata (Client.GetSchemas, GetTables, GetColumns)\<close>

record TableInfo =
  ti_Schema :: string
  ti_Name :: string

record ColumnInfo =
  Name :: string
  TypeName :: string
  Nullable :: bool
  OrdinalPosition :: int

text \<open>The calls an operation makes on the remote, in order.\<close>

datatype remote_call = CallGetObjects object_depth | CallQuery string

text \<open>
  A decoding loop collects the items of every batch and then asks the reader for its
  error; an error discards what was collected.
\<close>

definition read_all ::
  "string \<Rightarrow> ('b \<Rightarrow> 'a list) \<Rightarrow> 'b RecordReader \<Rightarrow> string + 'a list" where
  "read_all what decode reader =
     (case readerErr reader of
        Some e \<Rightarrow> Inl (what @ e)
      | None \<Rightarrow> Inr (concat (map decode (batches reader))))"

subsection \<open>Schemas\<close>

definition schemas_of_objects :: "ObjectsBatch \<Rightarrow> string list" where
  "schemas_of_objects rec =
     (if \<not> schemas_shape rec then []
      else concat (map (\<lambda>row. case row of
                                  None \<Rightarrow> []
                                | Some ss \<Rightarrow> List.map_filter db_schema_name ss)
                       (catalog_db_schemas rec)))"

definition getSchemasViaADBC :: "Remote \<Rightarrow> (string + string list) \<times> remote_call list" where
  "getSchemasViaADBC rm =
     (case getObjects rm ObjectDepthDBSchemas None None None None of
        Inl e \<Rightarrow> Inl (''get objects: '' @ e)
      | Inr reader \<Rightarrow> read_all ''read objects: '' schemas_of_objects reader,
      [CallGetObjects ObjectDepthDBSchemas])"

text \<open>The first column of a batch, when it is a string column: its non-null values.\<close>

definition first_string_column :: "record_batch \<Rightarrow> string list" where
  "first_string_column rec =
     (case rec of
        [] \<Rightarrow> []
      | col # _ \<Rightarrow> (case col of StringCol vs \<Rightarrow> List.map_filter (\<lambda>v. v) vs | _ \<Rightarrow> []))"

definition schemas_sql :: string where
  "schemas_sql = ''SELECT schema_name FROM information_schema.schemata''"

definition getSchemasViaSQL :: "Remote \<Rightarrow> (string + string list) \<times> remote_call list" where
  "getSchemasViaSQL rm =
     (case ClientQuery rm schemas_sql of
        Inl e \<Rightarrow> Inl (''query schemas: '' @ e)
      | Inr reader \<Rightarrow> read_all ''read schemas: '' first_string_column reader,
      [CallQuery schemas_sql])"

definition GetSchemas :: "Remote \<Rightarrow> (string + string list) \<times> remote_call list" where
  "GetSchemas rm =
     (case getSchemasViaADBC rm of
        (Inr schemas, calls) \<Rightarrow> (Inr schemas, calls)
      | (Inl err, calls) \<Rightarrow>
          (case getSchemasViaSQL rm of (r, calls') \<Rightarrow> (r, calls @ calls')))"

subsection \<open>Tables\<close>

definition tables_of_schema :: "AdbcSchema \<Rightarrow> TableInfo list" where
  "tables_of_schema s =
     (case db_schema_name s of
        None \<Rightarrow> []
      | Some schemaName \<Rightarrow>
          (case db_schema_tables s of
             None \<Rightarrow> []
           | Some ts \<Rightarrow>
               map (\<lambda>n. \<lparr>ti_Schema = schemaName, ti_Name = n\<rparr>) (List.map_filter table_name ts)))"

definition tables_of_objects :: "ObjectsBatch \<Rightarrow> TableInfo list" where
  "tables_of_objects rec =
     (if \<not> tables_shape rec then []
      else concat (map (\<lambda>row. case row of
                                  None \<Rightarrow> []
                                | Some ss \<Rightarrow> concat (map tables_of_schema ss))
                       (catalog_db_schemas rec)))"

definition getTablesViaADBC ::
  "Remote \<Rightarrow> string \<Rightarrow> (string + TableInfo list) \<times> remote_call list" where
  "getTablesViaADBC rm schema =
     (case getObjects rm ObjectDepthTables None (Some schema) None None of
        Inl e \<Rightarrow> Inl (''get objects: '' @ e)
      | Inr reader \<Rightarrow> read_all ''read objects: '' tables_of_objects reader,
      [CallGetObjects ObjectDepthTables])"

definition tables_sql :: "string \<Rightarrow> string" where
  "tables_sql schema =
     ''SELECT table_name FROM information_schema.tables WHERE table_schema = '' @ [CHR 0x27]
       @ schema @ [CHR 0x27]"

definition getTablesViaSQL ::
  "Remote \<Rightarrow> string \<Rightarrow> (string + TableInfo list) \<times> remote_call list" where
  "getTablesViaSQL rm schema =
     (case ClientQuery rm (tables_sql schema) of
        Inl e \<Rightarrow> Inl (''query tables: '' @ e)
      | Inr reader \<Rightarrow>
          read_all ''read tables: ''
            (\<lambda>rec. map (\<lambda>n. \<lparr>ti_Schema = schema, ti_Name = n\<rparr>) (first_string_column rec)) reader,
      [CallQuery (tables_sql schema)])"

definition GetTables ::
  "Remote \<Rightarrow> string \<Rightarrow> (string + TableInfo list) \<times> remote_call list" where
  "GetTables rm schema =
     (case getTablesViaADBC rm schema of
        (Inr tables, calls) \<Rightarrow> (Inr tables, calls)
      | (Inl err, calls) \<Rightarrow>
          (case getTablesViaSQL rm schema of (r, calls') \<Rightarrow> (r, calls @ calls')))"

subsection \<open>Columns\<close>

text \<open>
  One entry of \<open>table_columns\<close>: skipped when the name is null; the other fields keep
  their zero value unless the field is present and not null. \<open>Nullable\<close> is the
  comparison of \<open>xdbc_nullable\<close> with 1.
\<close>

definition column_info :: "AdbcColumn \<Rightarrow> ColumnInfo option" where
  "column_info c =
     (case column_name c of
        None \<Rightarrow> None
      | Some n \<Rightarrow>
          Some \<lparr>Name = n,
                TypeName = (case xdbc_type_name c of FieldValue t \<Rightarrow> t | _ \<Rightarrow> []),
                Nullable = (case xdbc_nullable c of FieldValue v \<Rightarrow> v = 1 | _ \<Rightarrow> False),
                OrdinalPosition = (case ordinal_position c of FieldValue v \<Rightarrow> sint v | _ \<Rightarrow> 0)\<rparr>)"

definition columns_of_table :: "AdbcTable \<Rightarrow> ColumnInfo list" where
  "columns_of_table t =
     (case table_columns t of None \<Rightarrow> [] | Some cs \<Rightarrow> List.map_filter column_info cs)"

definition columns_of_schema :: "AdbcSchema \<Rightarrow> ColumnInfo list" where
  "columns_of_schema s =
     (case db_schema_tables s of None \<Rightarrow> [] | Some ts \<Rightarrow> concat (map columns_of_table ts))"

definition columns_of_objects :: "ObjectsBatch \<Rightarrow> ColumnInfo list" where
  "columns_of_objects rec =
     (if \<not> columns_shape rec then []
      else concat (map (\<lambda>row. case row of
                                  None \<Rightarrow> []
                                | Some ss \<Rightarrow> concat (map columns_of_schema ss))
                       (catalog_db_schemas rec)))"

text \<open>
  The call passes the schema as \<open>dbSchema\<close>, nil as \<open>tableName\<close> and the table name as
  \<open>columnName\<close>.
\<close>

definition getColumnsViaADBC ::
  "Remote \<Rightarrow> string \<Rightarrow> string \<Rightarrow> (string + ColumnInfo list) \<times> remote_call list" where
  "getColumnsViaADBC rm schema table =
     (case getObjects rm ObjectDepthColumns None (Some schema) None (Some table) of
        Inl e \<Rightarrow> Inl (''get objects: '' @ e)
      | Inr reader \<Rightarrow> read_all ''read objects: '' columns_of_objects reader,
      [CallGetObjects ObjectDepthColumns])"

definition columns_sql :: "string \<Rightarrow> string \<Rightarrow> string" where
  "columns_sql schema table =
     ''SELECT column_name, data_type, is_nullable, ordinal_position FROM information_schema.columns WHERE table_schema = ''
       @ [CHR 0x27] @ schema @ [CHR 0x27] @ '' AND table_name = '' @ [CHR 0x27] @ table
       @ [CHR 0x27] @ '' ORDER BY ordinal_position''"

text \<open>
  The value at an index of a string column; the columns of a batch have the same
  length, an index beyond a list reads as a null.
\<close>

definition str_at :: "string option list \<Rightarrow> nat \<Rightarrow> string option" where
  "str_at vs i = (if i < length vs then vs ! i else None)"

text \<open>\<open>getOrdinal\<close>: the value of an int32 or int64 column, the row number plus one otherwise.\<close>

definition getOrdinal :: "arrow_col \<Rightarrow> nat \<Rightarrow> int" where
  "getOrdinal col i =
     (case col of
        Int32Col vs \<Rightarrow> (if i < length vs then sint (vs ! i) else 0)
      | Int64Col vs \<Rightarrow> (if i < length vs then sint (vs ! i) else 0)
      | _ \<Rightarrow> int i + 1)"

definition columns_of_sql_batch :: "record_batch \<Rightarrow> ColumnInfo list" where
  "columns_of_sql_batch rec =
     (case rec of
        StringCol names # StringCol types # StringCol nullables # ordinals # _ \<Rightarrow>
          List.map_filter
            (\<lambda>i. case str_at names i of
                    None \<Rightarrow> None
                  | Some n \<Rightarrow>
                      Some \<lparr>Name = n,
                            TypeName = (case str_at types i of Some t \<Rightarrow> t | None \<Rightarrow> []),
                            Nullable = (case str_at nullables i of
                                          Some v \<Rightarrow> v = ''YES''
                                        | None \<Rightarrow> False),
                            OrdinalPosition = getOrdinal ordinals i\<rparr>)
            [0..<length names]
      | _ \<Rightarrow> [])"

definition getColumnsViaSQL ::
  "Remote \<Rightarrow> string \<Rightarrow> string \<Rightarrow> (string + ColumnInfo list) \<times> remote_call list" where
  "getColumnsViaSQL rm schema table =
     (case ClientQuery rm (columns_sql schema table) of
        Inl e \<Rightarrow> Inl (''query columns: '' @ e)
      | Inr reader \<Rightarrow> read_all ''read columns: '' columns_of_sql_batch reader,
      [CallQuery (columns_sql schema table)])"

definition GetColumns ::
  "Remote \<Rightarrow> string \<Rightarrow> string \<Rightarrow> (string + ColumnInfo list) \<times> remote_call list" where
  "GetColumns rm schema table =
     (case getColumnsViaADBC rm schema table of
        (Inr columns, calls) \<Rightarrow> (Inr columns, calls)
      | (Inl err, calls) \<Rightarrow>
          (case getColumnsViaSQL rm schema table of (r, calls') \<Rightarrow> (r, calls @ calls')))"

text \<open>\<open>strings.Contains\<close>.\<close>

fun has_prefix :: "string \<Rightarrow> string \<Rightarrow> bool" where
  "has_prefix [] s = True"
| "has_prefix (p # ps) [] = False"
| "has_prefix (p # ps) (c # cs) = (p = c \<and> has_prefix ps cs)"

fun contains :: "string \<Rightarrow> string \<Rightarrow> bool" where
  "contains [] sub = (sub = [])"
| "contains (c # cs) sub = (has_prefix sub (c # cs) \<or> contains cs sub)"

text \<open>A remote on which both metadata paths fail, and one that answers a column listing.\<close>

definition failing_remote :: Remote where
  "failing_remote =
     \<lparr>newStatement = None, setSqlQuery = (\<lambda>_. None),
      executeQuery = (\<lambda>_. Inl ''sql path down''),
      executeUpdate = (\<lambda>_. Inl ''boom''),
      getObjects = (\<lambda>_ _ _ _ _. Inl ''rpc path down'')\<rparr>"

definition unknown_nullable_column :: AdbcColumn where
  "unknown_nullable_column =
     \<lparr>column_name = Some ''status'', ordinal_position = FieldValue 3,
      xdbc_type_name = FieldValue ''VARCHAR'', xdbc_nullable = FieldValue 2\<rparr>"

definition columns_remote :: Remote where
  "columns_remote =
     \<lparr>newStatement = None, setSqlQuery = (\<lambda>_. None),
      executeQuery = (\<lambda>_. Inl ''not used''),
      executeUpdate = (\<lambda>_. Inr 0),
      getObjects = (\<lambda>_ _ _ _ _. Inr
        \<lparr>batches =
           [\<lparr>schemas_shape = True, tables_shape = True, columns_shape = True,
             catalog_db_schemas =
               [Some [\<lparr>db_schema_name = Some ''main'',
                        db_schema_tables =
                          Some [\<lparr>table_name = Some ''Order'',
                                  table_columns =
                                    Some [\<lparr>column_name = Some ''id'',
                                            ordinal_position = FieldValue 1,
                                            xdbc_type_name = FieldValue ''BIGINT'',
                                            xdbc_nullable = FieldValue 0\<rparr>,
                                          \<lparr>column_name = Some ''name'',
                                            ordinal_position = FieldValue 2,
                                            xdbc_type_name = FieldValue ''VARCHAR'',
                                            xdbc_nullable = FieldValue 1\<rparr>,
                                          unknown_nullable_column,
                                          \<lparr>column_name = Some ''note'',
                                            ordinal_position = FieldValue 4,
                                            xdbc_type_name = FieldValue ''VARCHAR'',
                                            xdbc_nullable = FieldAbsent\<rparr>]\<rparr>]\<rparr>]]\<rparr>],
         readerErr = None\<rparr>)\<rparr>"

text \<open>The column entries that the column decoder visits in a batch, in order.\<close>

definition objects_columns :: "ObjectsBatch \<Rightarrow> AdbcColumn list" where
  "objects_columns rec =
     (if \<not> columns_shape rec then []
      else concat (map (\<lambda>row. case row of
                 None \<Rightarrow> []
               | Some ss \<Rightarrow>
                   concat (map (\<lambda>s. case db_schema_tables s of
                                  None \<Rightarrow> []
                                | Some ts \<Rightarrow>
                                    concat (map (\<lambda>t. case table_columns t of
                                                        None \<Rightarrow> []
                                                      | Some cs \<Rightarrow> cs) ts)) ss))
             (catalog_db_schemas rec)))"

section \<open>The process-wide configuration (replacement_scan.go)\<close>

record DuckArrowConfig =
  cfg_uri :: string
  cfg_username :: string
  cfg_password :: string
  cfg_skipVerify :: bool

text \<open>The zero value of the global \<open>duckArrowConfig\<close>.\<close>

definition duckArrowConfig0 :: DuckArrowConfig where
  "duckArrowConfig0 = \<lparr>cfg_uri = [], cfg_username = [], cfg_password = [], cfg_skipVerify = False\<rparr>"

text \<open>
  \<open>SetDuckArrowConfig\<close> replaces all four fields under the write lock;
  \<open>GetDuckArrowConfig\<close> reads them under the read lock.
\<close>

definition SetDuckArrowConfig :: "string \<Rightarrow> string \<Rightarrow> string \<Rightarrow> bool \<Rightarrow> DuckArrowConfig" where
  "SetDuckArrowConfig u usr pwd skip =
     \<lparr>cfg_uri = u, cfg_username = usr, cfg_password = pwd, cfg_skipVerify = skip\<rparr>"

definition GetDuckArrowConfig :: "DuckArrowConfig \<Rightarrow> string \<times> string \<times> string \<times> bool" where
  "GetDuckArrowConfig dc = (cfg_uri dc, cfg_username dc, cfg_password dc, cfg_skipVerify dc)"

section \<open>URI validation (internal/validation)\<close>

text \<open>
  \<open>strings.TrimSpace\<close> removes leading and trailing white space as Unicode defines it.
  On the bytes of a string these are the six ASCII characters and the UTF-8 encodings
  of U+0085, U+00A0, U+1680, U+2000 to U+200A, U+2028, U+2029, U+202F, U+205F and U+3000.
\<close>

definition ascii_space :: "char \<Rightarrow> bool" where
  "ascii_space c = (c = CHR 0x09 \<or> c = CHR 0x0A \<or> c = CHR 0x0B \<or> c = CHR 0x0C \<or> c = CHR 0x0D
                    \<or> c = CHR 0x20)"

text \<open>The third byte of a white-space character that starts with E2 and the given second byte.\<close>

definition e2_space :: "char \<Rightarrow> char \<Rightarrow> bool" where
  "e2_space b2 b3 =
     ((b2 = CHR 0x80 \<and> ((of_char b3 :: nat) \<in> {0x80..0x8A} \<or> b3 = CHR 0xA8 \<or> b3 = CHR 0xA9
                          \<or> b3 = CHR 0xAF))
      \<or> (b2 = CHR 0x81 \<and> b3 = CHR 0x9F))"

definition space3 :: "char \<Rightarrow> char \<Rightarrow> char \<Rightarrow> bool" where
  "space3 b1 b2 b3 =
     ((b1 = CHR 0xE1 \<and> b2 = CHR 0x9A \<and> b3 = CHR 0x80)
      \<or> (b1 = CHR 0xE2 \<and> e2_space b2 b3)
      \<or> (b1 = CHR 0xE3 \<and> b2 = CHR 0x80 \<and> b3 = CHR 0x80))"

definition space2 :: "char \<Rightarrow> char \<Rightarrow> bool" where
  "space2 b1 b2 = (b1 = CHR 0xC2 \<and> (b2 = CHR 0x85 \<or> b2 = CHR 0xA0))"

fun trimLeft :: "string \<Rightarrow> string" where
  "trimLeft (a # b # c # rest) =
     (if ascii_space a then trimLeft (b # c # rest)
      else if space2 a b then trimLeft (c # rest)
      else if space3 a b c then trimLeft rest
      else a # b # c # rest)"
| "trimLeft [a, b] =
     (if ascii_space a then trimLeft [b] else if space2 a b then [] else [a, b])"
| "trimLeft [a] = (if ascii_space a then [] else [a])"
| "trimLeft [] = []"

text \<open>The same from the end; the argument is the string reversed.\<close>

fun trimLeft_rev :: "string \<Rightarrow> string" where
  "trimLeft_rev (c # b # a # rest) =
     (if ascii_space c then trimLeft_rev (b # a # rest)
      else if space2 b c then trimLeft_rev (a # rest)
      else if space3 a b c then trimLeft_rev rest
      else c # b # a # rest)"
| "trimLeft_rev [c, b] =
     (if ascii_space c then trimLeft_rev [b] else if space2 b c then [] else [c, b])"
| "trimLeft_rev [c] = (if ascii_space c then [] else [c])"
| "trimLeft_rev [] = []"

definition TrimSpace :: "string \<Rightarrow> string" where
  "TrimSpace s = rev (trimLeft_rev (rev (trimLeft s)))"

text \<open>
  \<open>ValidateURI\<close>: the error message, or \<open>None\<close> when the URI is accepted. \<open>url_parse\<close>
  stands for \<open>url.Parse\<close> of the standard library followed by reading \<open>Host\<close>: it
  gives the parse error or the host.
\<close>

definition ValidateURI :: "(string \<Rightarrow> string + string) \<Rightarrow> string \<Rightarrow> string option" where
  "ValidateURI url_parse u0 =
     (let u = TrimSpace u0 in
      if u = [] then Some ''URI cannot be empty''
      else if length u > 2048 then Some ''URI exceeds maximum length of 2048 characters''
      else
        (case (if has_prefix ''grpc+tls://'' u then Some (drop (length ''grpc+tls://'') u)
               else if has_prefix ''grpc://'' u then Some (drop (length ''grpc://'') u)
               else None) of
           None \<Rightarrow> Some ''URI must start with grpc:// or grpc+tls://''
         | Some hostPart \<Rightarrow>
             if hostPart = [] then Some ''URI must include a host''
             else
               (case url_parse (''http://'' @ hostPart) of
                  Inl err \<Rightarrow> Some (''invalid URI format: '' @ err)
                | Inr host \<Rightarrow>
                    if host = [] then Some ''URI must include a valid host'' else None)))"

section \<open>The scalar functions (config_function.go, execute_function.go)\<close>

text \<open>
  One VARCHAR cell of an input vector: a NULL (validity bit clear), a string, or a
  \<open>duckdb_string_t\<close> with a length above zero and no data pointer.
\<close>

datatype varchar_cell = CellNull | CellStr string | CellNoData

fun extractString :: "varchar_cell \<Rightarrow> string + string" where
  "extractString (CellStr s) = Inr s"
| "extractString CellNoData = Inl ''null data pointer''"
| "extractString CellNull = Inr []"

text \<open>
  The optional fourth argument of \<open>duckarrow_configure\<close>: not passed, NULL, or the byte
  that stores the boolean.
\<close>

datatype bool_cell = BoolAbsent | BoolNull | BoolByte "8 word"

record ConfigureRow =
  arg_uri :: varchar_cell
  arg_username :: varchar_cell
  arg_password :: varchar_cell
  arg_skip_verify :: bool_cell

text \<open>
  An input chunk: its rows, and whether the host returned the input vectors and their
  data pointers.
\<close>

record 'r Chunk =
  chunk_rows :: "'r list"
  vectors_ok :: bool
  data_ok :: bool

definition maxDuckDBChunkSize :: nat where
  "maxDuckDBChunkSize = 2048"

text \<open>A credential argument as the callback reads it: the empty string for a NULL or an unreadable cell.\<close>

definition credential :: "varchar_cell \<Rightarrow> string" where
  "credential c =
     (case c of
        CellNull \<Rightarrow> []
      | _ \<Rightarrow> (case extractString c of Inr s \<Rightarrow> s | Inl e \<Rightarrow> []))"

text \<open>
  One iteration of the row loop of \<open>duckarrow_configure_callback\<close>: an error message
  that ends the call, or the output cell (\<open>None\<close> for NULL) and the configuration after
  the row.
\<close>

definition configure_row ::
  "(string \<Rightarrow> string + string) \<Rightarrow> ConfigureRow \<Rightarrow> DuckArrowConfig
     \<Rightarrow> string + (string option \<times> DuckArrowConfig)" where
  "configure_row url_parse row dc =
     (case arg_uri row of
        CellNull \<Rightarrow> Inr (None, dc)
      | c \<Rightarrow>
          (case extractString c of
             Inl e \<Rightarrow> Inl (''failed to read URI: '' @ e)
           | Inr u \<Rightarrow>
               (case ValidateURI url_parse u of
                  Some m \<Rightarrow> Inl m
                | None \<Rightarrow>
                    (let usr = credential (arg_username row);
                         pwd = credential (arg_password row);
                         skipVerify = (case arg_skip_verify row of
                                         BoolByte b \<Rightarrow> b \<noteq> 0
                                       | _ \<Rightarrow> False)
                     in Inr (Some ''DuckArrow configured successfully'',
                             SetDuckArrowConfig u usr pwd skipVerify)))))"

fun configure_rows ::
  "(string \<Rightarrow> string + string) \<Rightarrow> ConfigureRow list \<Rightarrow> DuckArrowConfig
     \<Rightarrow> (string + string option list) \<times> DuckArrowConfig" where
  "configure_rows url_parse [] dc = (Inr [], dc)"
| "configure_rows url_parse (row # rows) dc =
     (case configure_row url_parse row dc of
        Inl m \<Rightarrow> (Inl m, dc)
      | Inr (out, dc1) \<Rightarrow>
          (case configure_rows url_parse rows dc1 of
             (Inl m, dc2) \<Rightarrow> (Inl m, dc2)
           | (Inr outs, dc2) \<Rightarrow> (Inr (out # outs), dc2)))"

text \<open>\<open>setScalarError\<close> of the configure function.\<close>

definition setScalarError :: "string \<Rightarrow> string" where
  "setScalarError msg = ''duckarrow_configure: '' @ msg"

text \<open>
  \<open>duckarrow_configure_callback\<close>: the function error or the output cells, and the
  process-wide configuration after the call. Its inputs are the chunk and the
  configuration; it reads nothing else.
\<close>

definition duckarrow_configure_callback ::
  "(string \<Rightarrow> string + string) \<Rightarrow> ConfigureRow Chunk \<Rightarrow> DuckArrowConfig
     \<Rightarrow> (string + string option list) \<times> DuckArrowConfig" where
  "duckarrow_configure_callback url_parse input dc =
     (if length (chunk_rows input) = 0 then (Inr [], dc)
      else if length (chunk_rows input) > maxDuckDBChunkSize then
        (Inl (setScalarError ''input chunk size exceeds maximum''), dc)
      else if \<not> vectors_ok input then (Inl (setScalarError ''failed to get input vectors''), dc)
      else if \<not> data_ok input then (Inl (setScalarError ''failed to get input data''), dc)
      else
        (case configure_rows url_parse (chunk_rows input) dc of
           (Inl m, dc1) \<Rightarrow> (Inl (setScalarError m), dc1)
         | (Inr outs, dc1) \<Rightarrow> (Inr outs, dc1)))"

subsection \<open>\<open>duckarrow_execute\<close>\<close>

text \<open>The checks on the SQL text: not empty, at most 1 MiB, no NUL.\<close>

definition validate_sql :: "string \<Rightarrow> string option" where
  "validate_sql sql =
     (if sql = [] then Some ''SQL statement cannot be empty''
      else if length sql > 1024 * 1024 then Some ''SQL statement exceeds maximum length (1MB)''
      else if CHR 0x00 \<in> set sql then Some ''SQL statement contains invalid null byte''
      else None)"

text \<open>
  One iteration of the row loop of \<open>duckarrow_execute_callback\<close>: an error message that
  ends the call, or the output cell (\<open>None\<close> for a NULL input, the affected-row count
  otherwise).
\<close>

definition execute_row :: "Remote \<Rightarrow> varchar_cell \<Rightarrow> string + 64 word option" where
  "execute_row rm cell =
     (case cell of
        CellNull \<Rightarrow> Inr None
      | c \<Rightarrow>
          (case extractString c of
             Inl e \<Rightarrow> Inl (''failed to read SQL: '' @ e)
           | Inr sql \<Rightarrow>
               (case validate_sql sql of
                  Some m \<Rightarrow> Inl m
                | None \<Rightarrow>
                    (case ClientExecute rm sql of
                       Inl e \<Rightarrow> Inl (''remote server: '' @ e)
                     | Inr affected \<Rightarrow> Inr (Some affected)))))"

fun execute_rows :: "Remote \<Rightarrow> varchar_cell list \<Rightarrow> string + 64 word option list" where
  "execute_rows rm [] = Inr []"
| "execute_rows rm (cell # cells) =
     (case execute_row rm cell of
        Inl m \<Rightarrow> Inl m
      | Inr out \<Rightarrow>
          (case execute_rows rm cells of
             Inl m \<Rightarrow> Inl m
           | Inr outs \<Rightarrow> Inr (out # outs)))"

definition setExecuteError :: "string \<Rightarrow> string" where
  "setExecuteError msg = ''duckarrow_execute: '' @ msg"

text \<open>
  What the environment answers during one call of the execute function: the digest
  function, the driver's answers to the pool's \<open>Connect\<close> and \<open>Close\<close>, the clock
  readings of \<open>Get\<close> and of the final \<open>Release\<close>, the driver's answer to the final
  \<open>Close\<close> of a client that is not pooled, and the remote's answers to the statements.
\<close>

record ExecEnv =
  env_sha256_hex :: "string \<Rightarrow> string"
  env_connect :: DriverOutcome
  env_pool_close :: CloseOutcome
  env_t_check :: int
  env_t_stamp :: int
  env_t_release :: int
  env_client_close :: CloseOutcome
  env_remote :: Remote

text \<open>
  \<open>duckarrow_execute_callback\<close>: the function error or the output cells, and the state
  of pool and clients after the call (the deferred release or close included).
\<close>

definition duckarrow_execute_callback ::
  "ExecEnv \<Rightarrow> DuckArrowConfig \<Rightarrow> varchar_cell Chunk \<Rightarrow> World
     \<Rightarrow> (string + 64 word option list) \<times> World" where
  "duckarrow_execute_callback env dc input w =
     (if length (chunk_rows input) = 0 then (Inr [], w)
      else if length (chunk_rows input) > maxDuckDBChunkSize then
        (Inl (setExecuteError ''input chunk size exceeds maximum''), w)
      else if \<not> vectors_ok input then (Inl (setExecuteError ''failed to get input vector''), w)
      else if \<not> data_ok input then (Inl (setExecuteError ''failed to get input data''), w)
      else
        (case GetDuckArrowConfig dc of
           (u, usr, pwd, skipVerify) \<Rightarrow>
             if u = [] then
               (Inl (setExecuteError ''not configured - call duckarrow_configure() first''), w)
             else
               (let cfg = \<lparr>URI = u, Username = usr, Password = pwd, SkipVerify = skipVerify\<rparr> in
                case Get (env_sha256_hex env) (env_connect env) (env_pool_close env)
                       (env_t_check env) (env_t_stamp env) cfg w of
                  (Inl e, w1) \<Rightarrow> (Inl (setExecuteError (''connection failed: '' @ e)), w1)
                | (Inr connResult, w1) \<Rightarrow>
                    (let w2 = (if IsPooled connResult
                               then Release (env_sha256_hex env) (env_t_release env) cfg w1
                               else snd (ClientClose (env_client_close env)
                                           (Client_ptr connResult) w1))
                     in case execute_rows (env_remote env) (chunk_rows input) of
                          Inl m \<Rightarrow> (Inl (setExecuteError m), w2)
                        | Inr outs \<Rightarrow> (Inr outs, w2)))))"

text \<open>Concrete inputs: a configured process, and an environment whose remote fails every update.\<close>

definition configured :: DuckArrowConfig where
  "configured = \<lparr>cfg_uri = ''grpc://localhost:31337'', cfg_username = ''user'',
                  cfg_password = ''pass'', cfg_skipVerify = False\<rparr>"

definition failing_env :: ExecEnv where
  "failing_env =
     \<lparr>env_sha256_hex = plain_digest, env_connect = drv_ok, env_pool_close = co_ok,
      env_t_check = 0, env_t_stamp = 0, env_t_release = 1, env_client_close = co_ok,
      env_remote = failing_remote\<rparr>"

definition drop_table_chunk :: "varchar_cell Chunk" where
  "drop_table_chunk =
     \<lparr>chunk_rows = [CellStr (''DROP TABLE '' @ [CHR 0x22] @ ''t'' @ [CHR 0x22])],
      vectors_ok = True, data_ok = True\<rparr>"

text \<open>A stand-in for \<open>url.Parse\<close> on concrete inputs: the host is what follows \<open>http://\<close>.\<close>

definition example_url_parse :: "string \<Rightarrow> string + string" where
  "example_url_parse s = Inr (drop (length ''http://'') s)"

definition env_credentials_chunk :: "ConfigureRow Chunk" where
  "env_credentials_chunk =
     \<lparr>chunk_rows = [\<lparr>arg_uri = CellStr ''grpc+tls://localhost:31337'',
                      arg_username = CellStr [], arg_password = CellStr [],
                      arg_skip_verify = BoolByte 1\<rparr>],
      vectors_ok = True, data_ok = True\<rparr>"

definition unreported_env :: ExecEnv where
  "unreported_env =
     failing_env\<lparr>env_remote := failing_remote\<lparr>executeUpdate := (\<lambda>_. Inr (- 1))\<rparr>\<rparr>"

section \<open>Properties of the pool key\<close>

text \<open>
  When no field contains a NUL byte, the bytes that are hashed determine the
  configuration: the delimiters split them into the four fields.
\<close>

lemma split_at_delimiter:
  assumes "d \<notin> set a" "d \<notin> set a'" "a @ d # r = a' @ d # r'"
  shows "a = a' \<and> r = r'"
  using assms
proof (induction a arbitrary: a')
  case Nil
  then show ?case by (cases a') auto
next
  case (Cons x xs)
  then show ?case by (cases a') auto
qed

lemma fmt_bool_inj: "fmt_bool a = fmt_bool b \<Longrightarrow> a = b"
  by (simp add: fmt_bool_def split: if_splits)

lemma configKeyInput_injective_without_nul:
  assumes "CHR 0x00 \<notin> set (URI c1) \<union> set (Username c1) \<union> set (Password c1)"
    and "CHR 0x00 \<notin> set (URI c2) \<union> set (Username c2) \<union> set (Password c2)"
    and "configKeyInput c1 = configKeyInput c2"
  shows "c1 = c2"
proof -
  from assms(3) have e: "URI c1 @ CHR 0x00 # (Username c1 @ CHR 0x00 # (Password c1 @ CHR 0x00 # fmt_bool (SkipVerify c1)))
      = URI c2 @ CHR 0x00 # (Username c2 @ CHR 0x00 # (Password c2 @ CHR 0x00 # fmt_bool (SkipVerify c2)))"
    by (simp add: configKeyInput_def)
  from split_at_delimiter [OF _ _ e] assms(1,2)
  have u: "URI c1 = URI c2" and e2: "Username c1 @ CHR 0x00 # (Password c1 @ CHR 0x00 # fmt_bool (SkipVerify c1))
      = Username c2 @ CHR 0x00 # (Password c2 @ CHR 0x00 # fmt_bool (SkipVerify c2))" by auto
  from split_at_delimiter [OF _ _ e2] assms(1,2)
  have n: "Username c1 = Username c2" and e3: "Password c1 @ CHR 0x00 # fmt_bool (SkipVerify c1)
      = Password c2 @ CHR 0x00 # fmt_bool (SkipVerify c2)" by auto
  from split_at_delimiter [OF _ _ e3] assms(1,2)
  have p: "Password c1 = Password c2" and b: "fmt_bool (SkipVerify c1) = fmt_bool (SkipVerify c2)"
    by auto
  from u n p fmt_bool_inj [OF b] show ?thesis by simp
qed

text \<open>
  C1. The claim is that equal pool keys force equal configurations, also for fields
  that contain NUL bytes. The byte string that is hashed does not determine the
  configuration: username b NUL c with password d and username b with password
  c NUL d (same URI, same skip-verify) are hashed from the same bytes, so the two
  distinct configurations get the same key whatever the digest function is.
\<close>

theorem configKey_collision:
  "configKey sha256_hex
     \<lparr>URI = ''grpc://h:1'', Username = ''b'' @ [CHR 0x00] @ ''c'', Password = ''d'',
      SkipVerify = False\<rparr>
   = configKey sha256_hex
     \<lparr>URI = ''grpc://h:1'', Username = ''b'', Password = ''c'' @ [CHR 0x00] @ ''d'',
      SkipVerify = False\<rparr>
   \<and> \<lparr>URI = ''grpc://h:1'', Username = ''b'' @ [CHR 0x00] @ ''c'', Password = ''d'',
      SkipVerify = False\<rparr>
   \<noteq> \<lparr>URI = ''grpc://h:1'', Username = ''b'', Password = ''c'' @ [CHR 0x00] @ ''d'',
      SkipVerify = False\<rparr>"
  by (simp add: configKey_def configKeyInput_def)

section \<open>The pool: invariant of reachable states\<close>

lemma emit_fields [simp]:
  "heap (emit e w) = heap w" "nextAddr (emit e w) = nextAddr w"
  "globalPool (emit e w) = globalPool w" "trace (emit e w) = trace w @ [e]"
  by (simp_all add: emit_def)

lemma lookup_emit [simp]: "lookup (emit e w) = lookup w"
  by (rule ext) (simp add: lookup_def)

lemma set_entry_fields [simp]:
  "heap (set_entry k pc w) = heap w" "nextAddr (set_entry k pc w) = nextAddr w"
  "trace (set_entry k pc w) = trace w"
  "maxIdle (globalPool (set_entry k pc w)) = maxIdle (globalPool w)"
  by (simp_all add: set_entry_def)

lemma del_entry_fields [simp]:
  "heap (del_entry k w) = heap w" "nextAddr (del_entry k w) = nextAddr w"
  "trace (del_entry k w) = trace w"
  "maxIdle (globalPool (del_entry k w)) = maxIdle (globalPool w)"
  by (simp_all add: del_entry_def)

lemma lookup_set_entry [simp]: "lookup (set_entry k pc w) = (lookup w)(k \<mapsto> pc)"
  by (rule ext) (simp add: lookup_def set_entry_def update_conv')

lemma lookup_del_entry [simp]: "lookup (del_entry k w) = (lookup w)(k := None)"
  by (rule ext) (simp add: lookup_def del_entry_def delete_conv')

lemma ClientClose_fields [simp]:
  "heap (snd (ClientClose co a w)) = heap w"
  "nextAddr (snd (ClientClose co a w)) = nextAddr w"
  "globalPool (snd (ClientClose co a w)) = globalPool w"
  by (simp_all add: ClientClose_def Let_def split: option.splits prod.splits)

lemma lookup_ClientClose [simp]: "lookup (snd (ClientClose co a w)) = lookup w"
  by (rule ext) (simp add: lookup_def)

lemma Connect_pool [simp]: "globalPool (snd (Connect drv cfg w)) = globalPool w"
  by (simp add: Connect_def Let_def split: sum.splits)

lemma lookup_Connect [simp]: "lookup (snd (Connect drv cfg w)) = lookup w"
  by (rule ext) (simp add: lookup_def)

lemma Connect_Inl:
  "Connect drv cfg w = (Inl e, w1) \<Longrightarrow> heap w1 = heap w \<and> nextAddr w1 = nextAddr w"
  by (auto simp: Connect_def Let_def split: sum.splits)

lemma Connect_Inr:
  "Connect drv cfg w = (Inr a, w1) \<Longrightarrow>
     a = nextAddr w \<and> nextAddr w1 = Suc (nextAddr w) \<and> IsHealthy (heap w1 a)
     \<and> (\<forall>b. b \<noteq> a \<longrightarrow> heap w1 b = heap w b)"
  by (auto simp: Connect_def Let_def IsHealthy_def split: sum.splits)

lemma Connect_lookup: "Connect drv cfg w = (r, w1) \<Longrightarrow> lookup w1 = lookup w"
  using lookup_Connect [of drv cfg w] by simp

lemma pool_inv_emit [simp]: "pool_inv (emit e w) = pool_inv w"
  by (simp add: pool_inv_def)

lemma pool_inv_ClientClose: "pool_inv w \<Longrightarrow> pool_inv (snd (ClientClose co a w))"
  by (simp add: pool_inv_def)

lemma pool_inv_del: "pool_inv w \<Longrightarrow> pool_inv (del_entry k w)"
  unfolding pool_inv_def by (auto split: if_splits)

lemma pool_inv_Connect_Inl: "pool_inv w \<Longrightarrow> Connect drv cfg w = (Inl e, w1) \<Longrightarrow> pool_inv w1"
  using Connect_Inl [of drv cfg w e w1] Connect_lookup [of drv cfg w "Inl e" w1]
  by (simp add: pool_inv_def)

lemma pool_inv_Connect_Inr:
  assumes "pool_inv w" "Connect drv cfg w = (Inr a, w1)"
  shows "pool_inv w1"
proof -
  from Connect_Inr [OF assms(2)] have a: "a = nextAddr w" and n: "nextAddr w1 = Suc (nextAddr w)"
    and h: "IsHealthy (heap w1 a)" and o: "\<And>b. b \<noteq> a \<Longrightarrow> heap w1 b = heap w b" by auto
  have l: "lookup w1 = lookup w" by (rule Connect_lookup [OF assms(2)])
  show ?thesis
    unfolding pool_inv_def
  proof (intro conjI allI impI)
    fix k pc assume "lookup w1 k = Some pc"
    with l assms(1) have "client pc < nextAddr w" by (auto simp: pool_inv_def)
    then show "client pc < nextAddr w1" using n by simp
  next
    fix k k' pc pc'
    assume "lookup w1 k = Some pc \<and> lookup w1 k' = Some pc' \<and> client pc = client pc'"
    with l assms(1) show "k = k'" unfolding pool_inv_def by metis
  next
    fix b assume "b < nextAddr w1"
    then have "b = a \<or> b < nextAddr w" using n a by auto
    then show "IsHealthy (heap w1 b)"
    proof
      assume "b = a" then show ?thesis using h by simp
    next
      assume b: "b < nextAddr w"
      then have "b \<noteq> a" using a by simp
      then show ?thesis using o b assms(1) by (simp add: pool_inv_def)
    qed
  qed
qed

lemma pool_inv_set:
  assumes inv: "pool_inv w"
    and lt: "client pc' < nextAddr w"
    and other: "\<And>k2 pc2. k2 \<noteq> k \<Longrightarrow> lookup w k2 = Some pc2 \<Longrightarrow> client pc2 \<noteq> client pc'"
  shows "pool_inv (set_entry k pc' w)"
  unfolding pool_inv_def
proof (intro conjI allI impI)
  fix k1 pc1 assume "lookup (set_entry k pc' w) k1 = Some pc1"
  then show "client pc1 < nextAddr (set_entry k pc' w)"
    using inv lt by (auto simp: pool_inv_def split: if_splits)
next
  fix k1 k2 pc1 pc2
  assume a: "lookup (set_entry k pc' w) k1 = Some pc1 \<and> lookup (set_entry k pc' w) k2 = Some pc2
     \<and> client pc1 = client pc2"
  show "k1 = k2"
  proof (cases "k1 = k")
    case True
    show ?thesis
    proof (cases "k2 = k")
      case True with \<open>k1 = k\<close> show ?thesis by simp
    next
      case False
      with a True other [of k2 pc2] show ?thesis by auto
    qed
  next
    case False
    show ?thesis
    proof (cases "k2 = k")
      case True
      with a False other [of k1 pc1] show ?thesis by auto
    next
      case k2: False
      with a False have "lookup w k1 = Some pc1" "lookup w k2 = Some pc2" "client pc1 = client pc2"
        by auto
      with inv show ?thesis unfolding pool_inv_def by blast
    qed
  qed
next
  fix a assume "a < nextAddr (set_entry k pc' w)"
  then show "IsHealthy (heap (set_entry k pc' w) a)" using inv by (simp add: pool_inv_def)
qed

lemma pool_inv_set_existing:
  assumes "pool_inv w" "lookup w k = Some pc" "client pc' = client pc"
  shows "pool_inv (set_entry k pc' w)"
proof (rule pool_inv_set [OF assms(1)])
  show "client pc' < nextAddr w" using assms by (auto simp: pool_inv_def)
next
  fix k2 pc2 assume "k2 \<noteq> k" "lookup w k2 = Some pc2"
  with assms show "client pc2 \<noteq> client pc'" unfolding pool_inv_def by metis
qed

lemma pool_inv_Get_new:
  assumes "pool_inv w"
  shows "pool_inv (snd (Get_new drv t cfg k w))"
proof (cases "Connect drv cfg w")
  case (Pair r w1)
  show ?thesis
  proof (cases r)
    case (Inl e)
    with Pair assms show ?thesis by (simp add: Get_new_def pool_inv_Connect_Inl)
  next
    case (Inr a)
    with Pair have c: "Connect drv cfg w = (Inr a, w1)" by simp
    have i1: "pool_inv w1" by (rule pool_inv_Connect_Inr [OF assms(1) c])
    have l: "lookup w1 = lookup w" by (rule Connect_lookup [OF c])
    from Connect_Inr [OF c] have a: "a = nextAddr w" and n: "nextAddr w1 = Suc (nextAddr w)" by auto
    have old: "\<And>k' pc'. lookup w k' = Some pc' \<Longrightarrow> client pc' < a"
      using assms(1) a by (auto simp: pool_inv_def)
    have "pool_inv (set_entry k \<lparr>client = a, lastUsed = t, key = k, inUse = True\<rparr> w1)"
    proof (rule pool_inv_set [OF i1])
      show "client \<lparr>client = a, lastUsed = t, key = k, inUse = True\<rparr> < nextAddr w1"
        using a n by simp
    next
      fix k2 pc2 assume "k2 \<noteq> k" "lookup w1 k2 = Some pc2"
      then show "client pc2 \<noteq> client \<lparr>client = a, lastUsed = t, key = k, inUse = True\<rparr>"
        using old [of k2 pc2] l by simp
    qed
    then show ?thesis using c by (simp add: Get_new_def)
  qed
qed

lemma Get_absent:
  assumes "lookup w (configKey h cfg) = None"
  shows "Get h drv co t1 t2 cfg w
         = (fst (Get_new drv t2 cfg (configKey h cfg) (emit EvLock w)),
            emit EvUnlock (snd (Get_new drv t2 cfg (configKey h cfg) (emit EvLock w))))"
  using assms by (simp add: Get_def Let_def lookup_def split: prod.splits)

lemma Get_busy:
  assumes "lookup w (configKey h cfg) = Some pc" "inUse pc"
  shows "Get h drv co t1 t2 cfg w
         = (case Connect drv cfg (emit EvLock w) of
              (Inl e, w1) \<Rightarrow> (Inl e, emit EvUnlock w1)
            | (Inr a, w1) \<Rightarrow> (Inr \<lparr>Client_ptr = a, IsPooled = False\<rparr>, emit EvUnlock w1))"
  using assms by (simp add: Get_def Let_def lookup_def split: prod.splits sum.splits)

lemma Get_reuse:
  assumes "lookup w (configKey h cfg) = Some pc" "\<not> inUse pc"
    "IsHealthy (heap w (client pc))" "t1 - lastUsed pc < maxIdle (globalPool w)"
  shows "Get h drv co t1 t2 cfg w
         = (Inr \<lparr>Client_ptr = client pc, IsPooled = True\<rparr>,
            emit EvUnlock (set_entry (configKey h cfg) (pc\<lparr>inUse := True, lastUsed := t2\<rparr>)
              (emit EvLock w)))"
  using assms by (simp add: Get_def Let_def lookup_def)

lemma Get_evict:
  assumes "lookup w (configKey h cfg) = Some pc" "\<not> inUse pc"
    "\<not> (IsHealthy (heap w (client pc)) \<and> t1 - lastUsed pc < maxIdle (globalPool w))"
  shows "Get h drv co t1 t2 cfg w
         = (fst (Get_new drv t2 cfg (configKey h cfg)
                  (del_entry (configKey h cfg) (snd (ClientClose co (client pc) (emit EvLock w))))),
            emit EvUnlock (snd (Get_new drv t2 cfg (configKey h cfg)
                  (del_entry (configKey h cfg) (snd (ClientClose co (client pc) (emit EvLock w)))))))"
  using assms by (auto simp: Get_def Let_def lookup_def split: prod.splits)

lemma pool_inv_Get: "pool_inv w \<Longrightarrow> pool_inv (snd (Get h drv co t1 t2 cfg w))"
proof -
  assume inv: "pool_inv w"
  let ?k = "configKey h cfg"
  let ?w0 = "emit EvLock w"
  have inv0: "pool_inv ?w0" using inv by simp
  show ?thesis
  proof (cases "lookup w ?k")
    case None
    show ?thesis using pool_inv_Get_new [OF inv0] by (simp add: Get_absent [OF None])
  next
    case (Some pc)
    consider (busy) "inUse pc"
      | (reuse) "\<not> inUse pc" "IsHealthy (heap w (client pc))" "t1 - lastUsed pc < maxIdle (globalPool w)"
      | (evict) "\<not> inUse pc" "\<not> (IsHealthy (heap w (client pc)) \<and> t1 - lastUsed pc < maxIdle (globalPool w))"
      by blast
    then show ?thesis
    proof cases
      case busy
      obtain r w1 where c: "Connect drv cfg ?w0 = (r, w1)" by (cases "Connect drv cfg ?w0")
      have "pool_inv w1" using c inv0 pool_inv_Connect_Inl pool_inv_Connect_Inr by (cases r) blast+
      then show ?thesis using c by (cases r) (simp_all add: Get_busy [OF Some busy])
    next
      case reuse
      have "pool_inv (set_entry ?k (pc\<lparr>inUse := True, lastUsed := t2\<rparr>) ?w0)"
        by (rule pool_inv_set_existing [OF inv0, where pc = pc]) (simp_all add: Some)
      then show ?thesis by (simp add: Get_reuse [OF Some reuse])
    next
      case evict
      have "pool_inv (del_entry ?k (snd (ClientClose co (client pc) ?w0)))"
        by (intro pool_inv_del pool_inv_ClientClose inv0)
      then show ?thesis using pool_inv_Get_new by (simp add: Get_evict [OF Some evict])
    qed
  qed
qed

lemma pool_inv_Release: "pool_inv w \<Longrightarrow> pool_inv (Release h t cfg w)"
proof -
  assume inv: "pool_inv w"
  show ?thesis
  proof (cases "lookup w (configKey h cfg)")
    case None
    then show ?thesis using inv by (simp add: Release_def Let_def lookup_def)
  next
    case (Some pc)
    have "pool_inv (set_entry (configKey h cfg) (pc\<lparr>lastUsed := t, inUse := False\<rparr>) (emit EvLock w))"
      by (rule pool_inv_set_existing [where pc = pc]) (simp_all add: inv Some)
    then show ?thesis using Some by (simp add: Release_def Let_def lookup_def)
  qed
qed

lemma pool_inv_closeAll: "pool_inv w \<Longrightarrow> pool_inv (closeAll cos l w)"
  by (induction cos l w rule: closeAll.induct) (simp_all add: pool_inv_del pool_inv_ClientClose)

lemma pool_inv_PoolClose: "pool_inv w \<Longrightarrow> pool_inv (PoolClose cos w)"
  by (simp add: PoolClose_def Let_def pool_inv_closeAll)

lemma pool_inv_NewWorld: "pool_inv NewWorld"
  by (simp add: pool_inv_def NewWorld_def NewPool_def lookup_def)

lemma pool_inv_Connect: "pool_inv w \<Longrightarrow> pool_inv (snd (Connect drv cfg w))"
proof -
  assume inv: "pool_inv w"
  obtain r w1 where c: "Connect drv cfg w = (r, w1)" by (cases "Connect drv cfg w")
  have "pool_inv w1"
  proof (cases r)
    case (Inl e)
    with c inv show ?thesis by (simp add: pool_inv_Connect_Inl)
  next
    case (Inr a)
    with c inv show ?thesis by (simp add: pool_inv_Connect_Inr)
  qed
  then show ?thesis using c by simp
qed

lemma reachable_inv: "reachable h w \<Longrightarrow> pool_inv w"
  by (induction rule: reachable.induct)
     (simp_all add: pool_inv_NewWorld pool_inv_Get pool_inv_Release pool_inv_PoolClose
        pool_inv_ClientClose pool_inv_Connect)

lemma Connect_trace_eq:
  "trace (snd (Connect drv cfg w))
   = trace w @ EvConnect #
       (case newDatabase drv of
          Inl e \<Rightarrow> []
        | Inr d \<Rightarrow> (case openConn drv of Inl e \<Rightarrow> [EvDbClose d] | Inr c \<Rightarrow> []))"
  by (simp add: Connect_def Let_def split: sum.splits)

lemma ClientClose_trace_eq:
  "trace (snd (ClientClose co a w))
   = trace w @ (case conn (heap w a) of None \<Rightarrow> [] | Some hc \<Rightarrow> [EvConnClose hc])
       @ (case db (heap w a) of None \<Rightarrow> [] | Some hb \<Rightarrow> [EvDbClose hb])"
  by (simp add: ClientClose_def Let_def split: option.splits)

lemma Release_trace: "trace (Release h t cfg w) = trace w @ [EvLock, EvUnlock]"
  by (simp add: Release_def Let_def split: option.splits)

lemma rpc_while_locked_body:
  "list_all is_rpc body \<Longrightarrow> rpc_while_locked True (body @ es) = (body \<noteq> [] \<or> rpc_while_locked True es)"
  by (induction body) (auto elim: is_rpc.elims)

lemma Connect_heap_old:
  "a < nextAddr w \<Longrightarrow> heap (snd (Connect drv cfg w)) a = heap w a"
  by (simp add: Connect_def Let_def split: sum.splits)

lemma Connect_result:
  "fst (Connect drv cfg w) = Inr a \<Longrightarrow> a = nextAddr w \<and> IsHealthy (heap (snd (Connect drv cfg w)) a)"
  by (auto simp: Connect_def Let_def IsHealthy_def split: sum.splits)

lemma Connect_emit_fst: "fst (Connect drv cfg (emit e w)) = fst (Connect drv cfg w)"
  by (simp add: Connect_def Let_def split: sum.splits)

lemma Get_new_eq:
  "Get_new drv t cfg k w
   = (case fst (Connect drv cfg w) of
        Inl e \<Rightarrow> (Inl e, snd (Connect drv cfg w))
      | Inr a \<Rightarrow> (Inr \<lparr>Client_ptr = a, IsPooled = True\<rparr>,
                  set_entry k \<lparr>client = a, lastUsed = t, key = k, inUse = True\<rparr>
                    (snd (Connect drv cfg w))))"
  by (cases "Connect drv cfg w") (simp add: Get_new_def split: sum.splits)

lemma Get_new_other:
  "k \<noteq> k' \<Longrightarrow> lookup (snd (Get_new drv t cfg k' w)) k = lookup w k"
  by (simp add: Get_new_eq split: sum.splits)

lemma Get_new_heap_old:
  "a < nextAddr w \<Longrightarrow> heap (snd (Get_new drv t cfg k' w)) a = heap w a"
  by (simp add: Get_new_eq Connect_heap_old split: sum.splits)

lemma Get_new_result:
  "fst (Get_new drv t cfg k' w) = Inr r \<Longrightarrow> Client_ptr r = nextAddr w"
  using Connect_result [of drv cfg w]
  by (auto simp: Get_new_eq split: sum.splits)

lemma Get_busy_eq:
  assumes "lookup w (configKey h cfg) = Some pc" "inUse pc"
  shows "Get h drv co t1 t2 cfg w
         = (case fst (Connect drv cfg w) of
              Inl e \<Rightarrow> Inl e
            | Inr a \<Rightarrow> Inr \<lparr>Client_ptr = a, IsPooled = False\<rparr>,
            emit EvUnlock (snd (Connect drv cfg (emit EvLock w))))"
  using Connect_emit_fst [of drv cfg EvLock w]
  by (cases "Connect drv cfg (emit EvLock w)") (simp add: Get_busy [OF assms] split: sum.splits)

lemma Get_other_key:
  assumes "k \<noteq> configKey h cfg"
  shows "lookup (snd (Get h drv co t1 t2 cfg w)) k = lookup w k"
proof (cases "lookup w (configKey h cfg)")
  case None
  show ?thesis using assms by (simp add: Get_absent [OF None] Get_new_other)
next
  case (Some pc)
  consider (busy) "inUse pc"
    | (reuse) "\<not> inUse pc" "IsHealthy (heap w (client pc))" "t1 - lastUsed pc < maxIdle (globalPool w)"
    | (evict) "\<not> inUse pc" "\<not> (IsHealthy (heap w (client pc)) \<and> t1 - lastUsed pc < maxIdle (globalPool w))"
    by blast
  then show ?thesis
  proof cases
    case busy
    have "snd (Get h drv co t1 t2 cfg w) = emit EvUnlock (snd (Connect drv cfg (emit EvLock w)))"
      by (simp add: Get_busy [OF Some busy] split: prod.splits sum.splits)
    then show ?thesis by simp
  next
    case reuse
    show ?thesis using assms by (simp add: Get_reuse [OF Some reuse])
  next
    case evict
    show ?thesis using assms by (simp add: Get_evict [OF Some evict] Get_new_other)
  qed
qed

lemma Get_heap_old:
  assumes "a < nextAddr w"
  shows "heap (snd (Get h drv co t1 t2 cfg w)) a = heap w a"
proof (cases "lookup w (configKey h cfg)")
  case None
  show ?thesis using assms by (simp add: Get_absent [OF None] Get_new_heap_old)
next
  case (Some pc)
  consider (busy) "inUse pc"
    | (reuse) "\<not> inUse pc" "IsHealthy (heap w (client pc))" "t1 - lastUsed pc < maxIdle (globalPool w)"
    | (evict) "\<not> inUse pc" "\<not> (IsHealthy (heap w (client pc)) \<and> t1 - lastUsed pc < maxIdle (globalPool w))"
    by blast
  then show ?thesis
  proof cases
    case busy
    have "snd (Get h drv co t1 t2 cfg w) = emit EvUnlock (snd (Connect drv cfg (emit EvLock w)))"
      by (simp add: Get_busy [OF Some busy] split: prod.splits sum.splits)
    then show ?thesis using assms by (simp add: Connect_heap_old)
  next
    case reuse
    show ?thesis by (simp add: Get_reuse [OF Some reuse])
  next
    case evict
    show ?thesis using assms by (simp add: Get_evict [OF Some evict] Get_new_heap_old)
  qed
qed

lemma Get_result_client:
  assumes "fst (Get h drv co t1 t2 cfg w) = Inr r"
  shows "Client_ptr r = nextAddr w
         \<or> (\<exists>pc'. lookup w (configKey h cfg) = Some pc' \<and> \<not> inUse pc' \<and> Client_ptr r = client pc')"
proof (cases "lookup w (configKey h cfg)")
  case None
  show ?thesis using assms Get_new_result [of drv t2 cfg "configKey h cfg" "emit EvLock w" r]
    by (simp add: Get_absent [OF None])
next
  case (Some pc)
  consider (busy) "inUse pc"
    | (reuse) "\<not> inUse pc" "IsHealthy (heap w (client pc))" "t1 - lastUsed pc < maxIdle (globalPool w)"
    | (evict) "\<not> inUse pc" "\<not> (IsHealthy (heap w (client pc)) \<and> t1 - lastUsed pc < maxIdle (globalPool w))"
    by blast
  then show ?thesis
  proof cases
    case busy
    show ?thesis using assms Connect_result [of drv cfg "emit EvLock w"]
      by (auto simp: Get_busy [OF Some busy] split: prod.splits sum.splits)
  next
    case reuse
    show ?thesis using assms Some reuse by (auto simp: Get_reuse [OF Some reuse])
  next
    case evict
    show ?thesis using assms
      Get_new_result [of drv t2 cfg "configKey h cfg"
         "del_entry (configKey h cfg) (snd (ClientClose co (client pc) (emit EvLock w)))" r]
      by (simp add: Get_evict [OF Some evict])
  qed
qed

lemma Get_busy_result:
  assumes "lookup w (configKey h cfg) = Some pc" "inUse pc"
  shows "fst (Get h drv co t1 t2 cfg w)
         = (case fst (Connect drv cfg w) of
              Inl e \<Rightarrow> Inl e
            | Inr a \<Rightarrow> Inr \<lparr>Client_ptr = a, IsPooled = False\<rparr>)"
    and "globalPool (snd (Get h drv co t1 t2 cfg w)) = globalPool w"
  by (simp_all add: Get_busy_eq [OF assms])

lemma Release_other_key:
  "k \<noteq> configKey h cfg \<Longrightarrow> lookup (Release h t cfg w) k = lookup w k"
  by (simp add: Release_def Let_def lookup_def [symmetric] split: option.splits)

lemma world1_eq:
  "world1 = \<lparr>heap = (\<lambda>_. \<lparr>db = None, conn = None\<rparr>)(0 := \<lparr>db = Some 1, conn = Some 2\<rparr>),
              nextAddr = 1,
              globalPool = \<lparr>clients = [(configKey plain_digest example_cfg,
                  \<lparr>client = 0, lastUsed = 0, key = configKey plain_digest example_cfg, inUse = True\<rparr>)],
                maxIdle = 300000000000\<rparr>,
              trace = [EvLock, EvConnect, EvUnlock]\<rparr>"
  by (simp add: world1_def Get_def Get_new_def Connect_def NewWorld_def NewPool_def emit_def
      set_entry_def drv_ok_def Let_def)

section \<open>The pool: claims\<close>

text \<open>
  C5. In every reachable state, an entry whose in-use flag is set is not handed out
  again. Whatever configuration a \<open>Get\<close> is called with, the entry and the client
  object it points to are unchanged afterwards and the client returned (if any) is a
  different one. A \<open>Get\<close> for the entry's own key leaves the whole pool unchanged,
  makes one \<open>Connect\<close> and no \<open>Close\<close> of a client, and returns what the \<open>Connect\<close>
  returns: the error, or the newly allocated client marked non-pooled. A \<open>Release\<close>
  for another key leaves the entry alone too, so only a \<open>Release\<close> for its key
  changes it.
\<close>

theorem in_use_entry_not_reassigned:
  assumes "reachable h w" and "lookup w k = Some pc" and "inUse pc"
    and "Get h drv co t1 t2 cfg w = (res, w')"
  shows "lookup w' k = Some pc
       \<and> heap w' (client pc) = heap w (client pc)
       \<and> (\<forall>r. res = Inr r \<longrightarrow> Client_ptr r \<noteq> client pc)
       \<and> (configKey h cfg = k \<longrightarrow>
            globalPool w' = globalPool w
            \<and> res = (case fst (Connect drv cfg w) of
                       Inl e \<Rightarrow> Inl e
                     | Inr a \<Rightarrow> Inr \<lparr>Client_ptr = a, IsPooled = False\<rparr>)
            \<and> (\<forall>r. res = Inr r \<longrightarrow> Client_ptr r = nextAddr w)
            \<and> trace w' = trace w @ [EvLock, EvConnect]
                 @ (case newDatabase drv of
                      Inl e \<Rightarrow> []
                    | Inr d \<Rightarrow> (case openConn drv of Inl e \<Rightarrow> [EvDbClose d] | Inr c \<Rightarrow> []))
                 @ [EvUnlock])
       \<and> (configKey h cfg \<noteq> k \<longrightarrow> lookup (Release h t cfg w) k = Some pc)"
proof -
  have inv: "pool_inv w" by (rule reachable_inv [OF assms(1)])
  have lt: "client pc < nextAddr w" using inv assms(2) by (auto simp: pool_inv_def)
  have res: "res = fst (Get h drv co t1 t2 cfg w)" and w': "w' = snd (Get h drv co t1 t2 cfg w)"
    using assms(4) by simp_all
  have heap: "heap w' (client pc) = heap w (client pc)"
    unfolding w' by (rule Get_heap_old [OF lt])
  have notsame: "\<forall>r. res = Inr r \<longrightarrow> Client_ptr r \<noteq> client pc"
  proof (intro allI impI)
    fix r assume r: "res = Inr r"
    from Get_result_client [of h drv co t1 t2 cfg w r] r res
    consider "Client_ptr r = nextAddr w"
      | pc' where "lookup w (configKey h cfg) = Some pc'" "\<not> inUse pc'" "Client_ptr r = client pc'"
      by auto
    then show "Client_ptr r \<noteq> client pc"
    proof cases
      case 1
      then show ?thesis using lt by simp
    next
      case 2
      show ?thesis
      proof
        assume "Client_ptr r = client pc"
        then have "client pc' = client pc" using 2 by simp
        with inv 2(1) assms(2) have "configKey h cfg = k" unfolding pool_inv_def by metis
        with 2 assms(2,3) show False by simp
      qed
    qed
  qed
  show ?thesis
  proof (cases "configKey h cfg = k")
    case True
    then have l: "lookup w (configKey h cfg) = Some pc" using assms(2) by simp
    have g: "globalPool w' = globalPool w" unfolding w' by (rule Get_busy_result(2) [OF l assms(3)])
    have "lookup w' k = lookup w k" by (simp add: lookup_def g)
    moreover have "res = (case fst (Connect drv cfg w) of
                       Inl e \<Rightarrow> Inl e
                     | Inr a \<Rightarrow> Inr \<lparr>Client_ptr = a, IsPooled = False\<rparr>)"
      unfolding res by (rule Get_busy_result(1) [OF l assms(3)])
    moreover have "\<forall>r. res = Inr r \<longrightarrow> Client_ptr r = nextAddr w"
      using calculation(2) Connect_result [of drv cfg w] by (auto split: sum.splits)
    moreover have "trace w' = trace w @ [EvLock, EvConnect]
                 @ (case newDatabase drv of
                      Inl e \<Rightarrow> []
                    | Inr d \<Rightarrow> (case openConn drv of Inl e \<Rightarrow> [EvDbClose d] | Inr c \<Rightarrow> []))
                 @ [EvUnlock]"
      unfolding w' by (simp add: Get_busy_eq [OF l assms(3)] Connect_trace_eq)
    ultimately show ?thesis using True heap notsame g assms(2) by simp
  next
    case False
    then have "lookup w' k = lookup w k" unfolding w' using Get_other_key [of k h cfg] by simp
    moreover have "lookup (Release h t cfg w) k = lookup w k"
      using False Release_other_key [of k h cfg] by simp
    ultimately show ?thesis using False heap notsame assms(2) by simp
  qed
qed

theorem in_use_entry_not_reassigned_witness:
  "reachable plain_digest world1
   \<and> lookup world1 (configKey plain_digest example_cfg)
       = Some \<lparr>client = 0, lastUsed = 0, key = configKey plain_digest example_cfg, inUse = True\<rparr>
   \<and> fst (Get plain_digest drv_ok co_ok 7 7 example_cfg world1)
       = Inr \<lparr>Client_ptr = 1, IsPooled = False\<rparr>
   \<and> lookup (snd (Get plain_digest drv_ok co_ok 7 7 example_cfg world1))
        (configKey plain_digest example_cfg)
       = Some \<lparr>client = 0, lastUsed = 0, key = configKey plain_digest example_cfg, inUse = True\<rparr>"
proof -
  let ?pc = "\<lparr>client = 0, lastUsed = 0, key = configKey plain_digest example_cfg, inUse = True\<rparr>"
  have r: "reachable plain_digest world1"
    unfolding world1_def by (rule reach_Get [OF reach_init])
  have l: "lookup world1 (configKey plain_digest example_cfg) = Some ?pc"
    by (simp add: world1_eq lookup_def)
  have u: "inUse ?pc" by simp
  have c: "fst (Connect drv_ok example_cfg world1) = Inr 1"
    by (simp add: world1_eq Connect_def drv_ok_def Let_def emit_def)
  from in_use_entry_not_reassigned [OF r l u prod.collapse [symmetric], of drv_ok co_ok 7 7 example_cfg 0]
  show ?thesis using r l c by simp
qed

lemma Connect_trace_calls: "trace (snd (Connect drv cfg w)) = trace w @ connect_calls drv"
  by (simp add: Connect_trace_eq connect_calls_def)

lemma ClientClose_trace_calls:
  "trace (snd (ClientClose co a w)) = trace w @ close_calls (heap w a)"
  by (simp add: ClientClose_trace_eq close_calls_def)

lemma Get_new_trace_calls:
  "trace (snd (Get_new drv t cfg k w)) = trace w @ connect_calls drv"
  using Connect_trace_calls [of drv cfg w] by (simp add: Get_new_eq split: sum.splits)

lemma connect_calls_rpc: "list_all is_rpc (connect_calls drv)"
  by (simp add: connect_calls_def split: sum.splits)

lemma close_calls_rpc: "list_all is_rpc (close_calls c)"
  by (simp add: close_calls_def split: option.splits)

lemma close_calls_healthy:
  "IsHealthy c \<Longrightarrow> \<exists>hc hb. close_calls c = [EvConnClose hc, EvDbClose hb]"
  by (auto simp: IsHealthy_def close_calls_def)

lemma closeAll_heap [simp]: "heap (closeAll cos l w) = heap w"
  by (induction cos l w rule: closeAll.induct) simp_all

lemma closeAll_trace_calls:
  "trace (closeAll cos l w)
   = trace w @ concat (map (\<lambda>entry. close_calls (heap w (client (snd entry)))) l)"
proof (induction cos l w rule: closeAll.induct)
  case (1 cos w)
  then show ?case by simp
next
  case (2 cos k pc rest w)
  then show ?case by (simp add: ClientClose_trace_calls)
qed

lemma closeAll_clients:
  "clients (globalPool (closeAll cos l w))
   = filter (\<lambda>e. fst e \<notin> fst ` set l) (clients (globalPool w))"
proof (induction cos l w rule: closeAll.induct)
  case (1 cos w)
  then show ?case by simp
next
  case (2 cos k pc rest w)
  have "clients (globalPool (del_entry k (snd (ClientClose (cos (client pc)) (client pc) w))))
        = filter (\<lambda>e. fst e \<noteq> k) (clients (globalPool w))"
    by (simp add: del_entry_def AList.delete_eq split_def eq_commute [of k])
  with 2 show ?case by (simp add: conj_commute)
qed

lemma Get_trace_calls:
  "trace (snd (Get h drv co t1 t2 cfg w))
   = trace w @ [EvLock] @ Get_calls h drv t1 cfg w @ [EvUnlock]"
proof (cases "lookup w (configKey h cfg)")
  case None
  then show ?thesis
    by (simp add: Get_absent [OF None] Get_new_trace_calls Get_calls_def)
next
  case (Some pc)
  consider (busy) "inUse pc"
    | (reuse) "\<not> inUse pc" "IsHealthy (heap w (client pc))" "t1 - lastUsed pc < maxIdle (globalPool w)"
    | (evict) "\<not> inUse pc" "\<not> (IsHealthy (heap w (client pc)) \<and> t1 - lastUsed pc < maxIdle (globalPool w))"
    by blast
  then show ?thesis
  proof cases
    case busy
    then show ?thesis
      using Some by (simp add: Get_busy_eq [OF Some busy] Connect_trace_calls Get_calls_def)
  next
    case reuse
    then show ?thesis
      using Some by (simp add: Get_reuse [OF Some reuse] Get_calls_def reuses_def)
  next
    case evict
    have "\<not> reuses h t1 cfg w" using Some evict by (auto simp: reuses_def)
    then show ?thesis
      using Some evict(1)
      by (simp add: Get_evict [OF Some evict] Get_new_trace_calls ClientClose_trace_calls
          Get_calls_def)
  qed
qed

lemma Get_calls_rpc: "list_all is_rpc (Get_calls h drv t1 cfg w)"
  by (simp add: Get_calls_def connect_calls_rpc close_calls_rpc split: option.splits)

lemma Get_calls_reuses:
  "(if reuses h t1 cfg w then Get_calls h drv t1 cfg w = []
    else EvConnect \<in> set (Get_calls h drv t1 cfg w))"
  by (auto simp: Get_calls_def reuses_def connect_calls_def split: option.splits)

lemma PoolClose_calls_rpc: "list_all is_rpc (PoolClose_calls w)"
  by (simp add: PoolClose_calls_def list_all_iff close_calls_rpc [unfolded list_all_iff])

text \<open>
  C9, as the code has it. \<open>Get\<close>, \<open>Release\<close> and \<open>Close\<close> take the mutex on entry and
  release it on return, and every driver call they make lies between the two.
  \<open>Get\<close> makes no driver call exactly when it hands out the idle pooled entry; when
  the entry is missing or in use it calls \<open>Connect\<close> with the mutex held; when the
  entry is unhealthy or stale it closes the entry's client and then calls \<open>Connect\<close>,
  both with the mutex held. \<open>Release\<close> makes no driver call. \<open>Close\<close> closes the client
  of every entry with the mutex held and leaves the map empty. In a reachable state
  the close of a pooled client is the close of its connection and of its database.
\<close>

theorem mutex_held_around_driver_calls:
  "trace (snd (Get h drv co t1 t2 cfg w))
     = trace w @ [EvLock] @ Get_calls h drv t1 cfg w @ [EvUnlock]
   \<and> list_all is_rpc (Get_calls h drv t1 cfg w)
   \<and> (if reuses h t1 cfg w then Get_calls h drv t1 cfg w = []
       else EvConnect \<in> set (Get_calls h drv t1 cfg w))
   \<and> rpc_while_locked False ([EvLock] @ Get_calls h drv t1 cfg w @ [EvUnlock])
       = (\<not> reuses h t1 cfg w)
   \<and> trace (Release h t cfg w) = trace w @ [EvLock, EvUnlock]
   \<and> trace (PoolClose cos w) = trace w @ [EvLock] @ PoolClose_calls w @ [EvUnlock]
   \<and> list_all is_rpc (PoolClose_calls w)
   \<and> clients (globalPool (PoolClose cos w)) = []
   \<and> (reachable h w \<longrightarrow>
        (\<forall>k pc. lookup w k = Some pc \<longrightarrow>
           (\<exists>hc hb. close_calls (heap w (client pc)) = [EvConnClose hc, EvDbClose hb])))"
proof -
  have "rpc_while_locked False ([EvLock] @ Get_calls h drv t1 cfg w @ [EvUnlock])
        = (Get_calls h drv t1 cfg w \<noteq> [])"
    using rpc_while_locked_body [OF Get_calls_rpc, of h drv t1 cfg w "[EvUnlock]"] by simp
  also have "\<dots> = (\<not> reuses h t1 cfg w)"
    using Get_calls_reuses [of h t1 cfg w drv] by (auto split: if_splits)
  finally have r: "rpc_while_locked False ([EvLock] @ Get_calls h drv t1 cfg w @ [EvUnlock])
        = (\<not> reuses h t1 cfg w)" .
  have p: "trace (PoolClose cos w) = trace w @ [EvLock] @ PoolClose_calls w @ [EvUnlock]"
    by (simp add: PoolClose_def Let_def closeAll_trace_calls PoolClose_calls_def)
  have e: "clients (globalPool (PoolClose cos w)) = []"
    by (simp add: PoolClose_def Let_def closeAll_clients)
  have h: "reachable h w \<longrightarrow>
        (\<forall>k pc. lookup w k = Some pc \<longrightarrow>
           (\<exists>hc hb. close_calls (heap w (client pc)) = [EvConnClose hc, EvDbClose hb]))"
  proof (intro impI allI)
    fix k pc assume "reachable h w" "lookup w k = Some pc"
    then have "IsHealthy (heap w (client pc))"
      using reachable_inv [of h w] unfolding pool_inv_def by blast
    then show "\<exists>hc hb. close_calls (heap w (client pc)) = [EvConnClose hc, EvDbClose hb]"
      by (rule close_calls_healthy)
  qed
  show ?thesis
    using Get_trace_calls [of h drv co t1 t2 cfg w] Get_calls_rpc [of h drv t1 cfg w]
      Get_calls_reuses [of h t1 cfg w drv] r Release_trace [of h t cfg w] p
      PoolClose_calls_rpc [of w] e h
    by blast
qed

lemma world2_eq:
  "world2 = \<lparr>heap = (\<lambda>_. \<lparr>db = None, conn = None\<rparr>)(0 := \<lparr>db = Some 1, conn = Some 2\<rparr>),
              nextAddr = 1,
              globalPool = \<lparr>clients = [(configKey plain_digest example_cfg,
                  \<lparr>client = 0, lastUsed = 1, key = configKey plain_digest example_cfg, inUse = False\<rparr>)],
                maxIdle = 300000000000\<rparr>,
              trace = [EvLock, EvConnect, EvUnlock, EvLock, EvUnlock]\<rparr>"
  by (simp add: world2_def world1_eq Release_def Let_def emit_def set_entry_def)

theorem mutex_held_around_driver_calls_witness:
  "reachable plain_digest world1
   \<and> Get_calls plain_digest drv_ok 400000000000 example_cfg world2
       = [EvConnClose 2, EvDbClose 1, EvConnect]
   \<and> trace world3
       = trace world2 @ [EvLock, EvConnClose 2, EvDbClose 1, EvConnect, EvUnlock]
   \<and> trace (Release plain_digest 1 example_cfg world1) = trace world1 @ [EvLock, EvUnlock]
   \<and> trace (PoolClose cos_ok world1)
       = trace world1 @ [EvLock, EvConnClose 2, EvDbClose 1, EvUnlock]
   \<and> clients (globalPool (PoolClose cos_ok world1)) = []"
proof -
  have r: "reachable plain_digest world1"
    unfolding world1_def by (rule reach_Get [OF reach_init])
  have g: "Get_calls plain_digest drv_ok 400000000000 example_cfg world2
       = [EvConnClose 2, EvDbClose 1, EvConnect]"
    by (simp add: Get_calls_def reuses_def lookup_def world2_eq close_calls_def connect_calls_def
        drv_ok_def IsHealthy_def)
  have c: "PoolClose_calls world1 = [EvConnClose 2, EvDbClose 1]"
    by (simp add: PoolClose_calls_def world1_eq close_calls_def)
  from mutex_held_around_driver_calls [where h = plain_digest and drv = drv_ok and co = co_ok
      and ?t1.0 = 400000000000 and ?t2.0 = 400000000000 and cfg = example_cfg and w = world2
      and t = 1 and cos = cos_ok]
  have 3: "trace world3
       = trace world2 @ [EvLock, EvConnClose 2, EvDbClose 1, EvConnect, EvUnlock]"
    by (simp add: g world3_def)
  from mutex_held_around_driver_calls [where h = plain_digest and drv = drv_ok and co = co_ok
      and ?t1.0 = 0 and ?t2.0 = 0 and cfg = example_cfg and w = world1
      and t = 1 and cos = cos_ok]
  have 1: "trace (Release plain_digest 1 example_cfg world1) = trace world1 @ [EvLock, EvUnlock]"
    and 2: "trace (PoolClose cos_ok world1)
       = trace world1 @ [EvLock, EvConnClose 2, EvDbClose 1, EvUnlock]"
    and 4: "clients (globalPool (PoolClose cos_ok world1)) = []"
    by (simp_all add: c)
  show ?thesis using r g 1 2 3 4 by simp
qed

text \<open>
  C9 as stated fails: the first \<open>Get\<close> on a fresh pool calls \<open>Connect\<close> between
  taking and releasing the mutex.
\<close>

theorem Get_connects_under_mutex:
  "trace (snd (Get plain_digest drv_ok co_ok 0 0 example_cfg NewWorld)) = [EvLock, EvConnect, EvUnlock]
   \<and> rpc_while_locked False (trace (snd (Get plain_digest drv_ok co_ok 0 0 example_cfg NewWorld)))"
  using world1_eq by (simp add: world1_def)

text \<open>
  C10. Every client that a successful \<open>Connect\<close> allocated has both handles in every
  state reachable afterwards, whatever pool and client operations ran, \<open>Close\<close>
  included: \<open>Close\<close> leaves the store as it is, so \<open>IsHealthy\<close> still holds after
  it, and every pooled entry's client passes the health check of \<open>Get\<close>.
\<close>

theorem connected_client_stays_healthy:
  assumes "reachable h w" and "a < nextAddr w"
  shows "IsHealthy (heap w a)
       \<and> heap (snd (ClientClose co a w)) = heap w
       \<and> IsHealthy (heap (snd (ClientClose co a w)) a)
       \<and> (\<forall>k pc. lookup w k = Some pc \<longrightarrow> IsHealthy (heap w (client pc)))
       \<and> (\<forall>drv cfg b. fst (Connect drv cfg w) = Inr b \<longrightarrow>
             b = nextAddr w \<and> IsHealthy (heap (snd (Connect drv cfg w)) b))"
proof -
  have inv: "pool_inv w" by (rule reachable_inv [OF assms(1)])
  have 1: "IsHealthy (heap w a)" using inv assms(2) by (simp add: pool_inv_def)
  have 4: "\<forall>k pc. lookup w k = Some pc \<longrightarrow> IsHealthy (heap w (client pc))"
    using inv unfolding pool_inv_def by blast
  have 5: "\<forall>drv cfg b. fst (Connect drv cfg w) = Inr b \<longrightarrow>
             b = nextAddr w \<and> IsHealthy (heap (snd (Connect drv cfg w)) b)"
    using Connect_result by blast
  show ?thesis using 1 4 5 by simp
qed

theorem connected_client_stays_healthy_witness:
  "reachable plain_digest world1 \<and> (0::nat) < nextAddr world1
   \<and> IsHealthy (heap (snd (ClientClose co_ok 0 world1)) 0)"
proof -
  have r: "reachable plain_digest world1"
    unfolding world1_def by (rule reach_Get [OF reach_init])
  have n: "(0::nat) < nextAddr world1" by (simp add: world1_eq)
  from connected_client_stays_healthy [OF r n, of co_ok]
  show ?thesis using r n by simp
qed

section \<open>The query builder: claims\<close>

lemma scan_quoted_escape:
  "scan_quoted acc (escapeQuotes t @ [CHR 0x22]) = Some (acc @ escapeQuotes t)"
  by (induction t arbitrary: acc) simp_all

lemma unescape_escape: "unescapeQuotes (escapeQuotes t) = t"
proof (induction t)
  case Nil
  then show ?case by simp
next
  case (Cons c cs)
  show ?case
  proof (cases "c = CHR 0x22")
    case True
    then show ?thesis using Cons by simp
  next
    case False
    then show ?thesis using Cons by (cases "escapeQuotes cs") simp_all
  qed
qed

lemma match_quoted_built:
  "match_quoted_at (''SELECT * FROM '' @ [CHR 0x22] @ escapeQuotes t @ [CHR 0x22])
   = Some (escapeQuotes t)"
  by (simp add: match_quoted_at_def match_select_from_def fold_letter_def spaces1_def is_space_def
      scan_quoted_escape)

text \<open>
  C8, as the code has it. \<open>extractTableName\<close> (which unescapes what it extracts) reads
  queries of the form \<open>SELECT * FROM "..."\<close>. For every table name \<open>t\<close>, with any number
  of double quotes in it, it returns \<open>t\<close> from the query that \<open>buildProjectedQuery\<close> builds
  for \<open>t\<close> and the empty column list.
\<close>

theorem extractTableName_buildProjectedQuery_star:
  "extractTableName (buildProjectedQuery t []) = t"
proof -
  have "buildProjectedQuery t []
        = CHR ''S'' # (''ELECT * FROM '' @ [CHR 0x22] @ escapeQuotes t @ [CHR 0x22])"
    by (simp add: buildProjectedQuery_def)
  moreover have "find_leftmost match_quoted_at
        (CHR ''S'' # (''ELECT * FROM '' @ [CHR 0x22] @ escapeQuotes t @ [CHR 0x22]))
      = Some (escapeQuotes t)"
    using match_quoted_built [of t] by simp
  ultimately show ?thesis by (simp add: extractTableName_def unescape_escape)
qed

theorem extractTableName_buildProjectedQuery_star_witness:
  "extractTableName (buildProjectedQuery (''My'' @ [CHR 0x22] @ ''Table'') [])
   = ''My'' @ [CHR 0x22] @ ''Table''"
  by (rule extractTableName_buildProjectedQuery_star)

text \<open>
  C8 as stated fails for a column list that is not empty: the select list is then not
  \<open>*\<close>, neither pattern matches, and the extracted name is empty.
\<close>

theorem extractTableName_projected_counterexample:
  "extractTableName (buildProjectedQuery ''Order'' [''id'']) = []
   \<and> extractTableName (buildProjectedQuery ''Order'' [''id'']) \<noteq> ''Order''"
  by (simp add: extractTableName_def buildProjectedQuery_def match_quoted_at_def match_bare_at_def
      match_select_from_def fold_letter_def spaces1_def is_space_def)

section \<open>Scan initialisation: claims\<close>













section \<open>Metadata: nullability of columns\<close>

lemma map_filter_append': "List.map_filter f (xs @ ys) = List.map_filter f xs @ List.map_filter f ys"
  by (simp add: List.map_filter_def)

lemma map_filter_concat:
  "List.map_filter f (concat xss) = concat (map (List.map_filter f) xss)"
  by (induction xss) (simp_all add: map_filter_append' List.map_filter_simps)

lemma columns_of_table_eq:
  "columns_of_table
   = (\<lambda>t. List.map_filter column_info (case table_columns t of None \<Rightarrow> [] | Some cs \<Rightarrow> cs))"
  by (rule ext) (simp add: columns_of_table_def List.map_filter_simps split: option.splits)

lemma columns_of_schema_eq:
  "columns_of_schema
   = (\<lambda>s. List.map_filter column_info
            (case db_schema_tables s of
               None \<Rightarrow> []
             | Some ts \<Rightarrow> concat (map (\<lambda>t. case table_columns t of
                                                None \<Rightarrow> []
                                              | Some cs \<Rightarrow> cs) ts)))"
  by (rule ext)
     (simp add: columns_of_schema_def columns_of_table_eq map_filter_concat o_def
        List.map_filter_simps split: option.splits)

lemma columns_of_objects_eq:
  "columns_of_objects = (\<lambda>rec. List.map_filter column_info (objects_columns rec))"
proof (rule ext)
  fix rec
  have r: "(\<lambda>row. case row of None \<Rightarrow> [] | Some ss \<Rightarrow> concat (map columns_of_schema ss))
           = (\<lambda>row. List.map_filter column_info
               (case row of
                 None \<Rightarrow> []
               | Some ss \<Rightarrow>
                   concat (map (\<lambda>s. case db_schema_tables s of
                                  None \<Rightarrow> []
                                | Some ts \<Rightarrow>
                                    concat (map (\<lambda>t. case table_columns t of
                                                        None \<Rightarrow> []
                                                      | Some cs \<Rightarrow> cs) ts)) ss)))"
    by (rule ext)
       (simp add: columns_of_schema_eq map_filter_concat o_def List.map_filter_simps
          split: option.splits)
  show "columns_of_objects rec = List.map_filter column_info (objects_columns rec)"
    unfolding columns_of_objects_def objects_columns_def r
    by (simp add: map_filter_concat o_def List.map_filter_simps)
qed

lemma read_all_columns:
  "read_all what columns_of_objects reader
   = (case readerErr reader of
        Some e \<Rightarrow> Inl (what @ e)
      | None \<Rightarrow> Inr (List.map_filter column_info (concat (map objects_columns (batches reader)))))"
  by (simp add: read_all_def map_filter_concat columns_of_objects_eq o_def split: option.splits)

text \<open>
  C3, as the code has it. When the structured metadata call succeeds, the rows of
  \<open>GetColumns\<close> are the entries with a name, in order, and a row is reported nullable
  exactly when its \<open>xdbc_nullable\<close> field is present, not null and equal to 1. An
  indicator of 0 or 2 (or any other value), a null and an absent field all give a
  column that is reported not nullable.
\<close>

theorem nullable_iff_indicator_is_one:
  assumes "getObjects rm ObjectDepthColumns None (Some schema) None (Some table) = Inr reader"
    and "readerErr reader = None"
  shows "fst (getColumnsViaADBC rm schema table)
           = Inr (List.map_filter column_info (concat (map objects_columns (batches reader))))
       \<and> (\<forall>c ci. column_info c = Some ci \<longrightarrow>
             Nullable ci = (xdbc_nullable c = FieldValue 1))"
proof -
  have "fst (getColumnsViaADBC rm schema table)
           = Inr (List.map_filter column_info (concat (map objects_columns (batches reader))))"
    using assms by (simp add: getColumnsViaADBC_def read_all_columns)
  moreover have "\<forall>c ci. column_info c = Some ci \<longrightarrow>
             Nullable ci = (xdbc_nullable c = FieldValue 1)"
    by (auto simp: column_info_def split: option.splits field.splits)
  ultimately show ?thesis by simp
qed

lemma columns_remote_result:
  "fst (getColumnsViaADBC columns_remote ''main'' ''Order'')
   = Inr [\<lparr>Name = ''id'', TypeName = ''BIGINT'', Nullable = False, OrdinalPosition = 1\<rparr>,
          \<lparr>Name = ''name'', TypeName = ''VARCHAR'', Nullable = True, OrdinalPosition = 2\<rparr>,
          \<lparr>Name = ''status'', TypeName = ''VARCHAR'', Nullable = False, OrdinalPosition = 3\<rparr>,
          \<lparr>Name = ''note'', TypeName = ''VARCHAR'', Nullable = False, OrdinalPosition = 4\<rparr>]"
  by (simp add: getColumnsViaADBC_def columns_remote_def read_all_def columns_of_objects_def
      columns_of_schema_def columns_of_table_def column_info_def unknown_nullable_column_def
      List.map_filter_simps)

theorem nullable_iff_indicator_is_one_witness:
  "fst (getColumnsViaADBC columns_remote ''main'' ''Order'')
   = Inr [\<lparr>Name = ''id'', TypeName = ''BIGINT'', Nullable = False, OrdinalPosition = 1\<rparr>,
          \<lparr>Name = ''name'', TypeName = ''VARCHAR'', Nullable = True, OrdinalPosition = 2\<rparr>,
          \<lparr>Name = ''status'', TypeName = ''VARCHAR'', Nullable = False, OrdinalPosition = 3\<rparr>,
          \<lparr>Name = ''note'', TypeName = ''VARCHAR'', Nullable = False, OrdinalPosition = 4\<rparr>]"
proof -
  let ?reader = "\<lparr>batches =
           [\<lparr>schemas_shape = True, tables_shape = True, columns_shape = True,
             catalog_db_schemas =
               [Some [\<lparr>db_schema_name = Some ''main'',
                        db_schema_tables =
                          Some [\<lparr>table_name = Some ''Order'',
                                  table_columns =
                                    Some [\<lparr>column_name = Some ''id'',
                                            ordinal_position = FieldValue 1,
                                            xdbc_type_name = FieldValue ''BIGINT'',
                                            xdbc_nullable = FieldValue 0\<rparr>,
                                          \<lparr>column_name = Some ''name'',
                                            ordinal_position = FieldValue 2,
                                            xdbc_type_name = FieldValue ''VARCHAR'',
                                            xdbc_nullable = FieldValue 1\<rparr>,
                                          unknown_nullable_column,
                                          \<lparr>column_name = Some ''note'',
                                            ordinal_position = FieldValue 4,
                                            xdbc_type_name = FieldValue ''VARCHAR'',
                                            xdbc_nullable = FieldAbsent\<rparr>]\<rparr>]\<rparr>]]\<rparr>],
         readerErr = None\<rparr>"
  have g: "getObjects columns_remote ObjectDepthColumns None (Some ''main'') None (Some ''Order'')
      = Inr ?reader"
    by (simp add: columns_remote_def)
  have e: "readerErr ?reader = None" by simp
  from nullable_iff_indicator_is_one [OF g e]
  show ?thesis
    by (simp add: objects_columns_def column_info_def unknown_nullable_column_def
        List.map_filter_simps)
qed

text \<open>
  C3 as stated fails: a column whose indicator is 2 (unknown), and one whose indicator
  field is absent, are reported not nullable.
\<close>

theorem unknown_nullable_counterexample:
  "column_info unknown_nullable_column
     = Some \<lparr>Name = ''status'', TypeName = ''VARCHAR'', Nullable = False, OrdinalPosition = 3\<rparr>
   \<and> fst (getColumnsViaADBC columns_remote ''main'' ''Order'')
     = Inr [\<lparr>Name = ''id'', TypeName = ''BIGINT'', Nullable = False, OrdinalPosition = 1\<rparr>,
            \<lparr>Name = ''name'', TypeName = ''VARCHAR'', Nullable = True, OrdinalPosition = 2\<rparr>,
            \<lparr>Name = ''status'', TypeName = ''VARCHAR'', Nullable = False, OrdinalPosition = 3\<rparr>,
            \<lparr>Name = ''note'', TypeName = ''VARCHAR'', Nullable = False, OrdinalPosition = 4\<rparr>]"
  by (simp add: columns_remote_result) (simp add: column_info_def unknown_nullable_column_def)

section \<open>Metadata: the fallback\<close>

lemma fallback_shape:
  assumes "snd a = [c1]" "snd b = [c2]"
  shows "(case a of (Inr x, calls) \<Rightarrow> (Inr x, calls)
          | (Inl err, calls) \<Rightarrow> (case b of (r, calls') \<Rightarrow> (r, calls @ calls')))
         = (case fst a of Inr x \<Rightarrow> (Inr x, [c1]) | Inl e \<Rightarrow> (fst b, [c1, c2]))"
  using assms by (cases a; cases b) (auto split: sum.splits)

text \<open>
  C6, as the code has it. Each metadata operation calls the structured RPC once. When
  it succeeds, its result is returned and no SQL is sent. When it fails, the
  \<open>information_schema\<close> query is sent exactly once and the operation returns what the
  fallback returns, its rows or its error; the error of the structured RPC is dropped.
\<close>

theorem metadata_fallback_once:
  "GetSchemas rm
     = (case fst (getSchemasViaADBC rm) of
          Inr schemas \<Rightarrow> (Inr schemas, [CallGetObjects ObjectDepthDBSchemas])
        | Inl e \<Rightarrow> (fst (getSchemasViaSQL rm),
                     [CallGetObjects ObjectDepthDBSchemas, CallQuery schemas_sql]))
   \<and> GetTables rm schema
     = (case fst (getTablesViaADBC rm schema) of
          Inr tables \<Rightarrow> (Inr tables, [CallGetObjects ObjectDepthTables])
        | Inl e \<Rightarrow> (fst (getTablesViaSQL rm schema),
                     [CallGetObjects ObjectDepthTables, CallQuery (tables_sql schema)]))
   \<and> GetColumns rm schema table
     = (case fst (getColumnsViaADBC rm schema table) of
          Inr columns \<Rightarrow> (Inr columns, [CallGetObjects ObjectDepthColumns])
        | Inl e \<Rightarrow> (fst (getColumnsViaSQL rm schema table),
                     [CallGetObjects ObjectDepthColumns, CallQuery (columns_sql schema table)]))"
proof -
  have 1: "snd (getSchemasViaADBC rm) = [CallGetObjects ObjectDepthDBSchemas]"
    "snd (getSchemasViaSQL rm) = [CallQuery schemas_sql]"
    by (simp_all add: getSchemasViaADBC_def getSchemasViaSQL_def)
  have 2: "snd (getTablesViaADBC rm schema) = [CallGetObjects ObjectDepthTables]"
    "snd (getTablesViaSQL rm schema) = [CallQuery (tables_sql schema)]"
    by (simp_all add: getTablesViaADBC_def getTablesViaSQL_def)
  have 3: "snd (getColumnsViaADBC rm schema table) = [CallGetObjects ObjectDepthColumns]"
    "snd (getColumnsViaSQL rm schema table) = [CallQuery (columns_sql schema table)]"
    by (simp_all add: getColumnsViaADBC_def getColumnsViaSQL_def)
  show ?thesis
    unfolding GetSchemas_def GetTables_def GetColumns_def
    by (simp only: fallback_shape [OF 1] fallback_shape [OF 2] fallback_shape [OF 3] simp_thms)
qed

theorem metadata_fallback_once_witness:
  "GetSchemas failing_remote
   = (Inl ''query schemas: execute query: sql path down'',
      [CallGetObjects ObjectDepthDBSchemas, CallQuery schemas_sql])"
proof -
  have a: "fst (getSchemasViaADBC failing_remote) = Inl ''get objects: rpc path down''"
    by (simp add: getSchemasViaADBC_def failing_remote_def)
  have b: "fst (getSchemasViaSQL failing_remote) = Inl ''query schemas: execute query: sql path down''"
    by (simp add: getSchemasViaSQL_def ClientQuery_def failing_remote_def)
  from metadata_fallback_once [of failing_remote]
  show ?thesis by (simp add: a b)
qed

text \<open>
  C6 as stated fails: when both paths fail, the error that is returned is the
  fallback's alone; the message of the structured RPC's failure is not in it.
\<close>

theorem metadata_errors_counterexample:
  "fst (GetSchemas failing_remote) = Inl ''query schemas: execute query: sql path down''
   \<and> fst (getSchemasViaADBC failing_remote) = Inl ''get objects: rpc path down''
   \<and> \<not> contains ''query schemas: execute query: sql path down'' ''rpc path down''
   \<and> fst (GetColumns failing_remote ''main'' ''Order'')
       = Inl ''query columns: execute query: sql path down''"
  by (simp add: GetSchemas_def getSchemasViaADBC_def getSchemasViaSQL_def GetColumns_def
      getColumnsViaADBC_def getColumnsViaSQL_def ClientQuery_def failing_remote_def)

section \<open>The execute function: claims\<close>

lemma execute_rows_single:
  "execute_rows rm [cell] = (case execute_row rm cell of Inl m \<Rightarrow> Inl m | Inr out \<Rightarrow> Inr [out])"
  by (simp split: sum.splits)

lemma execute_single_row:
  assumes "cfg_uri dc \<noteq> []" and "validate_sql sql = None"
    and "fst (Get (env_sha256_hex env) (env_connect env) (env_pool_close env) (env_t_check env)
               (env_t_stamp env)
               \<lparr>URI = cfg_uri dc, Username = cfg_username dc, Password = cfg_password dc,
                SkipVerify = cfg_skipVerify dc\<rparr> w) = Inr connResult"
  shows "fst (duckarrow_execute_callback env dc
                \<lparr>chunk_rows = [CellStr sql], vectors_ok = True, data_ok = True\<rparr> w)
         = (case ClientExecute (env_remote env) sql of
              Inl e \<Rightarrow> Inl (''duckarrow_execute: remote server: '' @ e)
            | Inr affected \<Rightarrow> Inr [Some affected])
       \<and> ClientExecute (env_remote env) sql
         = (case newStatement (env_remote env) of
              Some e \<Rightarrow> Inl (''create statement: '' @ e)
            | None \<Rightarrow>
                (case setSqlQuery (env_remote env) sql of
                   Some e \<Rightarrow> Inl (''set query: '' @ e)
                 | None \<Rightarrow>
                     (case executeUpdate (env_remote env) sql of
                        Inl e \<Rightarrow> Inl (''execute update: '' @ e)
                      | Inr affected \<Rightarrow> Inr affected)))"
proof -
  let ?cfg = "\<lparr>URI = cfg_uri dc, Username = cfg_username dc, Password = cfg_password dc,
                SkipVerify = cfg_skipVerify dc\<rparr>"
  obtain r w1 where g: "Get (env_sha256_hex env) (env_connect env) (env_pool_close env)
       (env_t_check env) (env_t_stamp env) ?cfg w = (r, w1)"
    by (cases "Get (env_sha256_hex env) (env_connect env) (env_pool_close env)
       (env_t_check env) (env_t_stamp env) ?cfg w")
  with assms(3) have r: "r = Inr connResult" by simp
  have row: "execute_row (env_remote env) (CellStr sql)
        = (case ClientExecute (env_remote env) sql of
              Inl e \<Rightarrow> Inl (''remote server: '' @ e)
            | Inr affected \<Rightarrow> Inr (Some affected))"
    using assms(2) by (simp add: execute_row_def)
  have "fst (duckarrow_execute_callback env dc
                \<lparr>chunk_rows = [CellStr sql], vectors_ok = True, data_ok = True\<rparr> w)
         = (case ClientExecute (env_remote env) sql of
              Inl e \<Rightarrow> Inl (''duckarrow_execute: remote server: '' @ e)
            | Inr affected \<Rightarrow> Inr [Some affected])"
    using assms(1) g r
    by (simp add: duckarrow_execute_callback_def GetDuckArrowConfig_def maxDuckDBChunkSize_def
        Let_def row setExecuteError_def split: sum.splits)
  then show ?thesis by (simp add: ClientExecute_def)
qed

text \<open>
  C7, as the code has it. For a call of the execute function with one valid, non-null
  SQL argument, in a configured process that obtains a connection: when the remote
  executes the statement, the result is the affected-row count that the driver
  returned, unchanged (so \<open>-1\<close> when the driver returns \<open>-1\<close> for a count the server
  did not report); when the remote fails, the function error is the function name,
  then \<open>remote server: \<close>, then the stage that failed (\<open>create statement: \<close>,
  \<open>set query: \<close> or \<open>execute update: \<close>), then the remote's message verbatim.
\<close>

theorem execute_passes_remote_result:
  assumes "cfg_uri dc \<noteq> []" and "validate_sql sql = None"
    and "fst (Get (env_sha256_hex env) (env_connect env) (env_pool_close env) (env_t_check env)
               (env_t_stamp env)
               \<lparr>URI = cfg_uri dc, Username = cfg_username dc, Password = cfg_password dc,
                SkipVerify = cfg_skipVerify dc\<rparr> w) = Inr connResult"
  shows "fst (duckarrow_execute_callback env dc
                \<lparr>chunk_rows = [CellStr sql], vectors_ok = True, data_ok = True\<rparr> w)
         = (case ClientExecute (env_remote env) sql of
              Inl e \<Rightarrow> Inl (''duckarrow_execute: remote server: '' @ e)
            | Inr affected \<Rightarrow> Inr [Some affected])
       \<and> ClientExecute (env_remote env) sql
         = (case newStatement (env_remote env) of
              Some e \<Rightarrow> Inl (''create statement: '' @ e)
            | None \<Rightarrow>
                (case setSqlQuery (env_remote env) sql of
                   Some e \<Rightarrow> Inl (''set query: '' @ e)
                 | None \<Rightarrow>
                     (case executeUpdate (env_remote env) sql of
                        Inl e \<Rightarrow> Inl (''execute update: '' @ e)
                      | Inr affected \<Rightarrow> Inr affected)))"
  by (rule execute_single_row [OF assms])

lemma Get_NewWorld_configured:
  "fst (Get plain_digest drv_ok co_ok 0 0
          \<lparr>URI = cfg_uri configured, Username = cfg_username configured,
           Password = cfg_password configured, SkipVerify = cfg_skipVerify configured\<rparr> NewWorld)
   = Inr \<lparr>Client_ptr = 0, IsPooled = True\<rparr>"
  by (simp add: Get_def Get_new_def Connect_def NewWorld_def NewPool_def emit_def drv_ok_def
      Let_def configured_def)

lemma validate_drop_table:
  "validate_sql (''DROP TABLE '' @ [CHR 0x22] @ ''t'' @ [CHR 0x22]) = None"
  by (simp add: validate_sql_def)

theorem execute_passes_remote_result_witness:
  "fst (duckarrow_execute_callback unreported_env configured drop_table_chunk NewWorld)
   = Inr [Some (- 1)]"
proof -
  have u: "cfg_uri configured \<noteq> []" by (simp add: configured_def)
  have g: "fst (Get (env_sha256_hex unreported_env) (env_connect unreported_env)
               (env_pool_close unreported_env) (env_t_check unreported_env)
               (env_t_stamp unreported_env)
               \<lparr>URI = cfg_uri configured, Username = cfg_username configured,
                Password = cfg_password configured, SkipVerify = cfg_skipVerify configured\<rparr>
               NewWorld) = Inr \<lparr>Client_ptr = 0, IsPooled = True\<rparr>"
    using Get_NewWorld_configured by (simp add: unreported_env_def failing_env_def)
  from execute_passes_remote_result [OF u validate_drop_table g]
  show ?thesis
    by (simp add: drop_table_chunk_def unreported_env_def failing_env_def failing_remote_def
        ClientExecute_def)
qed

text \<open>
  C7 as stated fails: the remote's message \<open>boom\<close> reaches the host with more than the
  function name in front of it.
\<close>

theorem execute_error_prefix_counterexample:
  "fst (duckarrow_execute_callback failing_env configured drop_table_chunk NewWorld)
     = Inl ''duckarrow_execute: remote server: execute update: boom''
   \<and> executeUpdate (env_remote failing_env) (''DROP TABLE '' @ [CHR 0x22] @ ''t'' @ [CHR 0x22])
     = Inl ''boom''
   \<and> fst (duckarrow_execute_callback failing_env configured drop_table_chunk NewWorld)
     \<noteq> Inl ''duckarrow_execute: boom''"
proof -
  have u: "cfg_uri configured \<noteq> []" by (simp add: configured_def)
  have g: "fst (Get (env_sha256_hex failing_env) (env_connect failing_env)
               (env_pool_close failing_env) (env_t_check failing_env)
               (env_t_stamp failing_env)
               \<lparr>URI = cfg_uri configured, Username = cfg_username configured,
                Password = cfg_password configured, SkipVerify = cfg_skipVerify configured\<rparr>
               NewWorld) = Inr \<lparr>Client_ptr = 0, IsPooled = True\<rparr>"
    using Get_NewWorld_configured by (simp add: failing_env_def)
  have c: "ClientExecute (env_remote failing_env) (''DROP TABLE '' @ [CHR 0x22] @ ''t'' @ [CHR 0x22])
           = Inl ''execute update: boom''"
    by (simp add: ClientExecute_def failing_env_def failing_remote_def)
  have r: "fst (duckarrow_execute_callback failing_env configured drop_table_chunk NewWorld)
     = Inl ''duckarrow_execute: remote server: execute update: boom''"
    using execute_single_row [OF u validate_drop_table g] c
    by (simp add: drop_table_chunk_def)
  have e: "executeUpdate (env_remote failing_env) (''DROP TABLE '' @ [CHR 0x22] @ ''t'' @ [CHR 0x22])
     = Inl ''boom''"
    by (simp add: failing_env_def failing_remote_def)
  show ?thesis unfolding r using e by simp
qed

section \<open>The configure function: claims\<close>

lemma configure_rows_single:
  "configure_rows url_parse [row] dc
   = (case configure_row url_parse row dc of
        Inl m \<Rightarrow> (Inl m, dc)
      | Inr (out, dc1) \<Rightarrow> (Inr [out], dc1))"
  by (simp split: sum.splits prod.splits)

text \<open>
  C2. The claim is that an empty username or password argument makes the stored
  configuration take that credential from the environment. The callback reads its
  arguments and nothing else: for every accepted URI the stored username and password
  are the arguments as given, so an empty (or NULL) argument is stored as the empty
  string whatever the environment holds.
\<close>

theorem configure_stores_arguments:
  assumes "ValidateURI url_parse u = None"
  shows "duckarrow_configure_callback url_parse
           \<lparr>chunk_rows = [\<lparr>arg_uri = CellStr u, arg_username = usr, arg_password = pwd,
                            arg_skip_verify = skip\<rparr>],
            vectors_ok = True, data_ok = True\<rparr> dc
         = (Inr [Some ''DuckArrow configured successfully''],
            \<lparr>cfg_uri = u,
             cfg_username = (case usr of CellStr s \<Rightarrow> s | _ \<Rightarrow> []),
             cfg_password = (case pwd of CellStr s \<Rightarrow> s | _ \<Rightarrow> []),
             cfg_skipVerify = (case skip of BoolByte b \<Rightarrow> b \<noteq> 0 | _ \<Rightarrow> False)\<rparr>)"
proof -
  have c: "\<And>c. credential c = (case c of CellStr s \<Rightarrow> s | _ \<Rightarrow> [])"
    by (simp add: credential_def split: varchar_cell.splits)
  show ?thesis
    using assms
    by (simp add: duckarrow_configure_callback_def maxDuckDBChunkSize_def configure_rows_single
        configure_row_def Let_def SetDuckArrowConfig_def c)
qed

lemma validate_example_uri:
  "ValidateURI example_url_parse ''grpc+tls://localhost:31337'' = None"
  by (simp add: ValidateURI_def TrimSpace_def ascii_space_def space2_def space3_def Let_def
      example_url_parse_def)

theorem configure_stores_arguments_witness:
  "snd (duckarrow_configure_callback example_url_parse env_credentials_chunk duckArrowConfig0)
   = \<lparr>cfg_uri = ''grpc+tls://localhost:31337'', cfg_username = [], cfg_password = [],
      cfg_skipVerify = True\<rparr>"
  using configure_stores_arguments [OF validate_example_uri, of "CellStr []" "CellStr []" "BoolByte 1"
      duckArrowConfig0]
  by (simp add: env_credentials_chunk_def)

end
